theory Spec2Isabelle
  imports Complex_Main "HOL-Library.List_Lexorder"
begin

section \<open>Gryffin: sampler, mixed-type optimizer and sample selector\<close>

text \<open>
  The development embeds three classes of the repository:
  \<^item> \<^verbatim>\<open>SampleSelector\<close> (sample_selector.py): scoring, greedy diverse selection, duplicate repair;
  \<^item> \<^verbatim>\<open>RandomSampler\<close> (random_sampler.py): draws and perturbations, with rejection sampling;
  \<^item> \<^verbatim>\<open>GradientOptimizer\<close> (gradient_optimizer.py): the per-type refinement loop.

  Conventions.
  \<^item> NumPy floating-point numbers are modelled by \<^typ>\<open>real\<close>: double-precision arithmetic
    is taken as exact, and a cast to \<^verbatim>\<open>float32\<close> is the rounding \<open>float32\<close> below.
  \<^item> A one-dimensional array is a \<^typ>\<open>real list\<close>, a two-dimensional array a list of rows.
    Arrays that NumPy combines element-wise are taken to have matching shapes, and ranges
    that it divides by to be positive; the theorems that depend on either say so in
    their hypotheses.
  \<^item> A raised exception is a value \<open>Inl e\<close> of the result type \<open>error + 'a\<close>.
  \<^item> The random generator is an explicit entropy source that every draw consumes.
  \<^item> An unbounded \<^verbatim>\<open>while\<close> loop is a \<^theory_text>\<open>partial_function\<close> into \<open>option\<close>:
    \<open>None\<close> is the run that never returns.
  \<^item> A Python name with a leading underscore is written with a trailing prime:
    \<^verbatim>\<open>_select\<close> is \<open>select'\<close>.
\<close>

subsection \<open>Exceptions and Python values\<close>

datatype error =
    AttributeError string
  | UnboundLocalError string
  | TypeError string
  | ValueError string
  | IndexError string
  | KeyError nat
  | SystemExit string

subsection \<open>Scoring: \<^verbatim>\<open>compute_exp_objs\<close> and \<^verbatim>\<open>_compute_exp_objs\<close>\<close>

type_synonym sample = "real list"

text \<open>The acquisition evaluator \<^verbatim>\<open>eval_acquisition(sample, sampling_param_idx)\<close>.\<close>

type_synonym acquisition = "sample \<Rightarrow> nat \<Rightarrow> real"

text \<open>
  The manager dictionary \<^verbatim>\<open>return_dict\<close>: \<open>None\<close> is the Python \<^verbatim>\<open>None\<close> of the sequential
  call, \<open>Some d\<close> a \<^verbatim>\<open>DictProxy\<close> with contents \<open>d\<close>.
\<close>

type_synonym return_dict = "(nat \<rightharpoonup> real list) option"

text \<open>
  \<^verbatim>\<open>compute_exp_objs\<close> (lines 26-39). \<^verbatim>\<open>proposals[sampling_param_idx]\<close> raises
  \<^verbatim>\<open>IndexError\<close> out of range; the loop fills \<^verbatim>\<open>exp_objs\<close> with \<^verbatim>\<open>np.exp(-acq)\<close> in sample
  order; the result is also stored under \<^verbatim>\<open>return_index\<close> when a \<^verbatim>\<open>DictProxy\<close> was passed.
\<close>

definition compute_exp_objs ::
  "sample list list \<Rightarrow> acquisition \<Rightarrow> nat \<Rightarrow> nat \<Rightarrow> return_dict
    \<Rightarrow> error + (real list \<times> return_dict)" where
  "compute_exp_objs proposals eval_acquisition sampling_param_idx return_index return_dict =
     (if sampling_param_idx < length proposals then
        (let samples = proposals ! sampling_param_idx;
             exp_objs = map (\<lambda>sample. exp (- eval_acquisition sample sampling_param_idx)) samples
         in Inr (exp_objs,
                 (case return_dict of
                    None \<Rightarrow> None
                  | Some d \<Rightarrow> Some (d(return_index \<mapsto> exp_objs)))))
      else Inl (IndexError ''proposals''))"

text \<open>
  \<^verbatim>\<open>np.array_split(ary, k)\<close> along one axis: with \<open>n\<close> entries, the first \<open>n mod k\<close>
  sections hold \<open>n div k + 1\<close> entries and the others \<open>n div k\<close>; the sections are
  consecutive slices.
\<close>

definition section_sizes :: "nat \<Rightarrow> nat \<Rightarrow> nat list" where
  "section_sizes n k = replicate (n mod k) (n div k + 1) @ replicate (k - n mod k) (n div k)"

fun slices :: "nat list \<Rightarrow> 'a list \<Rightarrow> 'a list list" where
  "slices [] xs = []"
| "slices (s # ss) xs = take s xs # slices ss (drop s xs)"

definition array_split :: "'a list \<Rightarrow> nat \<Rightarrow> 'a list list" where
  "array_split xs k = slices (section_sizes (length xs) k) xs"

text \<open>
  \<^verbatim>\<open>np.array_split(proposals, num_cpus, axis=1)\<close>: \<^verbatim>\<open>proposals\<close> has shape
  (strategies, candidates, features); section \<open>i\<close> keeps every strategy and, of each, the
  \<open>i\<close>-th slice of its candidates.
\<close>

definition array_split_axis1 :: "sample list list \<Rightarrow> nat \<Rightarrow> sample list list list" where
  "array_split_axis1 proposals k =
     map (\<lambda>i. map (\<lambda>strategy. array_split strategy k ! i) proposals) [0..<k]"

text \<open>
  One worker process (lines 126-130): it runs \<^verbatim>\<open>compute_exp_objs\<close> on its section and writes
  the manager dictionary; an exception raised inside the child does not reach the parent,
  the child only leaves no entry.
\<close>

definition worker ::
  "sample list list list \<Rightarrow> acquisition \<Rightarrow> nat \<Rightarrow> nat \<Rightarrow> (nat \<rightharpoonup> real list)
    \<Rightarrow> (nat \<rightharpoonup> real list)" where
  "worker proposals_splits eval_acquisition sampling_param_idx return_idx d =
     (case compute_exp_objs (proposals_splits ! return_idx) eval_acquisition
             sampling_param_idx return_idx (Some d) of
        Inr (_, Some d') \<Rightarrow> d'
      | _ \<Rightarrow> d)"

text \<open>
  Lines 135-137: \<^verbatim>\<open>batch_exp_objs.extend(return_dict[idx])\<close> for \<^verbatim>\<open>idx\<close> in increasing
  order; a missing key raises \<^verbatim>\<open>KeyError\<close>.
\<close>

fun collect :: "(nat \<rightharpoonup> real list) \<Rightarrow> nat list \<Rightarrow> error + real list" where
  "collect d [] = Inr []"
| "collect d (idx # idxs) =
     (case d idx of
        None \<Rightarrow> Inl (KeyError idx)
      | Some chunk \<Rightarrow>
          (case collect d idxs of
             Inl e \<Rightarrow> Inl e
           | Inr rest \<Rightarrow> Inr (chunk @ rest)))"

text \<open>
  The body of the loop over \<^verbatim>\<open>sampling_param_values\<close> (lines 118-144) for one strategy.
  \<open>schedule\<close> is the order in which the writes of the worker processes reach the manager
  dictionary; the parent joins every process before it reads.
\<close>

definition batch_exp_objs ::
  "nat \<Rightarrow> nat list \<Rightarrow> sample list list \<Rightarrow> acquisition \<Rightarrow> nat \<Rightarrow> error + real list" where
  "batch_exp_objs num_cpus schedule proposals eval_acquisition sampling_param_idx =
     (if num_cpus > 1 then
        (let proposals_splits = array_split_axis1 proposals num_cpus;
             return_dict = fold (worker proposals_splits eval_acquisition sampling_param_idx)
                             schedule Map.empty
         in collect return_dict [0..<length proposals_splits])
      else
        (case compute_exp_objs proposals eval_acquisition sampling_param_idx 0 None of
           Inl e \<Rightarrow> Inl e
         | Inr (exp_objs, _) \<Rightarrow> Inr exp_objs))"

text \<open>Sequencing a list of fallible results: the first exception stops the loop.\<close>

fun sequence :: "(error + 'a) list \<Rightarrow> error + 'a list" where
  "sequence [] = Inr []"
| "sequence (r # rs) =
     (case r of
        Inl e \<Rightarrow> Inl e
      | Inr x \<Rightarrow> (case sequence rs of Inl e \<Rightarrow> Inl e | Inr xs \<Rightarrow> Inr (x # xs)))"

text \<open>\<^verbatim>\<open>_compute_exp_objs\<close> (lines 107-150): one reward row per sampling-parameter value.\<close>

definition compute_exp_objs' ::
  "nat \<Rightarrow> nat list \<Rightarrow> sample list list \<Rightarrow> acquisition \<Rightarrow> 'p list \<Rightarrow> error + real list list" where
  "compute_exp_objs' num_cpus schedule proposals eval_acquisition sampling_param_values =
     sequence (map (batch_exp_objs num_cpus schedule proposals eval_acquisition)
                 [0..<length sampling_param_values])"


subsection \<open>Configuration\<close>

text \<open>
  One entry of \<^verbatim>\<open>config.parameters\<close>: \<^verbatim>\<open>p['type']\<close> and the entries \<^verbatim>\<open>low\<close>, \<^verbatim>\<open>high\<close>,
  \<^verbatim>\<open>options\<close> of \<^verbatim>\<open>p['specifics']\<close>.
\<close>

record parameter =
  ptype :: string
  low :: real
  high :: real
  options :: "string list"

text \<open>The fields of \<^verbatim>\<open>config\<close> that the three classes read.\<close>

record config =
  parameters :: "parameter list"
  param_lowers :: "real list"
  param_uppers :: "real list"
  feature_ranges :: "real list"
  num_features :: nat
  feature_types :: "string list"
  feature_names :: "string list"
  feature_lowers :: "real list"
  feature_uppers :: "real list"
  num_cpus :: nat

subsection \<open>Selection: \<^verbatim>\<open>_select\<close>\<close>

text \<open>Element-wise operations and reductions of NumPy on one-dimensional arrays.\<close>

definition abs_diff :: "sample \<Rightarrow> sample \<Rightarrow> real list" where
  "abs_diff proposal x = map2 (\<lambda>a b. \<bar>a - b\<bar>) proposal x"

definition minimum :: "real list \<Rightarrow> real list \<Rightarrow> real list" where
  "minimum xs ys = map2 min xs ys"

text \<open>
  \<^verbatim>\<open>np.amin\<close> over a one-dimensional array, and over the rows of a two-dimensional one
  (\<^verbatim>\<open>axis=0\<close>). NumPy raises on an empty reduction; every caller below checks for it first.
\<close>

fun amin :: "real list \<Rightarrow> real" where
  "amin [] = 0"
| "amin (x # xs) = fold min xs x"

fun amin_axis0 :: "real list list \<Rightarrow> real list" where
  "amin_axis0 [] = []"
| "amin_axis0 (r # rs) = fold (\<lambda>row acc. minimum acc row) rs r"

definition mean :: "real list \<Rightarrow> real" where
  "mean xs = sum_list xs / real (length xs)"

text \<open>\<^verbatim>\<open>np.argmax\<close>: the index of the first occurrence of the maximum.\<close>

fun argmax_from :: "nat \<Rightarrow> real \<Rightarrow> nat \<Rightarrow> real list \<Rightarrow> nat" where
  "argmax_from best bv i [] = best"
| "argmax_from best bv i (x # xs) =
     (if bv < x then argmax_from i x (Suc i) xs else argmax_from best bv (Suc i) xs)"

fun argmax :: "real list \<Rightarrow> nat" where
  "argmax [] = 0"
| "argmax (x # xs) = argmax_from 0 x 1 xs"

text \<open>Line 156: \<^verbatim>\<open>char_dists = feature_ranges / float(num_obs)**0.5\<close>.\<close>

definition char_dists :: "config \<Rightarrow> nat \<Rightarrow> real list" where
  "char_dists cfg num_obs = map (\<lambda>r. r / sqrt (real num_obs)) (feature_ranges cfg)"

text \<open>Lines 166-167: \<^verbatim>\<open>(x - param_lowers) / (param_uppers - param_lowers)\<close>.\<close>

definition normalise :: "config \<Rightarrow> sample \<Rightarrow> sample" where
  "normalise cfg x =
     map2 (\<lambda>d w. d / w) (map2 (\<lambda>a l. a - l) x (param_lowers cfg))
       (map2 (\<lambda>u l. u - l) (param_uppers cfg) (param_lowers cfg))"

text \<open>
  Lines 170-182 for one strategy: the reward of a proposal whose squared normalised
  distance to the nearest observation is below \<open>1e-8\<close> becomes \<open>0\<close>. With no observation
  the reduction of line 178 raises.
\<close>

definition sq_distances :: "sample list \<Rightarrow> sample \<Rightarrow> real list" where
  "sq_distances obs_params_norm batch_proposal =
     map (\<lambda>obs. sum_list (map2 (\<lambda>a b. (a - b)\<^sup>2) obs batch_proposal)) obs_params_norm"

definition zero_identical ::
  "config \<Rightarrow> sample list \<Rightarrow> sample list \<Rightarrow> real list \<Rightarrow> error + real list" where
  "zero_identical cfg obs_params batch_proposals rewards =
     (if obs_params = [] then Inl (ValueError ''zero-size array to reduction operation minimum'')
      else
        (let obs_params_norm = map (normalise cfg) obs_params
         in Inr (map2 (\<lambda>batch_proposal reward.
                        if amin (sq_distances obs_params_norm (normalise cfg batch_proposal))
                             < 1 / 10 ^ 8
                        then 0 else reward)
                   batch_proposals rewards)))"

text \<open>
  Lines 201-212: the diversity criterion of one proposal, given the observations and the
  samples selected so far.
\<close>

definition div_crit :: "config \<Rightarrow> sample list \<Rightarrow> sample list \<Rightarrow> sample \<Rightarrow> real" where
  "div_crit cfg obs_params selected_samples proposal =
     (let obs_min_distance = amin_axis0 (map (abs_diff proposal) obs_params);
          min_distance =
            (if length selected_samples > 0
             then minimum (amin_axis0 (map (abs_diff proposal) selected_samples)) obs_min_distance
             else obs_min_distance)
      in min 1 (mean (map exp
           (map2 (\<lambda>d r. 2 * d / r)
              (map2 (\<lambda>m c. m - c) min_distance (char_dists cfg (length obs_params)))
              (feature_ranges cfg)))))"

text \<open>
  Lines 193-225: one pass of the inner loop. The state is the reward array and the list of
  selected samples. \<^verbatim>\<open>np.argmax\<close> raises on an empty array.
\<close>

definition select_one ::
  "config \<Rightarrow> sample list \<Rightarrow> sample list list \<Rightarrow> nat \<Rightarrow> real list list \<times> sample list
    \<Rightarrow> error + (real list list \<times> sample list)" where
  "select_one cfg obs_params proposals sampling_param_idx st =
     (let exp_objs = fst st;
          selected_samples = snd st;
          batch_proposals = proposals ! sampling_param_idx;
          div_crits = map (div_crit cfg obs_params selected_samples) batch_proposals;
          reweighted_rewards = map2 (\<lambda>r d. r * d) (exp_objs ! sampling_param_idx) div_crits
      in if reweighted_rewards = []
         then Inl (ValueError ''attempt to get argmax of an empty sequence'')
         else
           (let largest_reward_index = argmax reweighted_rewards;
                new_sample = batch_proposals ! largest_reward_index
            in Inr (exp_objs[sampling_param_idx :=
                               (exp_objs ! sampling_param_idx)[largest_reward_index := 0]],
                    selected_samples @ [new_sample])))"

text \<open>A \<^verbatim>\<open>for\<close> loop whose body may raise.\<close>

fun for_each :: "('a \<Rightarrow> 's \<Rightarrow> error + 's) \<Rightarrow> 'a list \<Rightarrow> 's \<Rightarrow> error + 's" where
  "for_each body [] st = Inr st"
| "for_each body (x # xs) st =
     (case body x st of Inl e \<Rightarrow> Inl e | Inr st' \<Rightarrow> for_each body xs st')"

text \<open>
  \<^verbatim>\<open>_select\<close> (lines 153-230): scoring, zeroing of repeated observations, and
  \<^verbatim>\<open>num_batches\<close> rounds over the strategies.
\<close>

definition select' ::
  "config \<Rightarrow> nat list \<Rightarrow> nat \<Rightarrow> sample list list \<Rightarrow> acquisition \<Rightarrow> 'p list \<Rightarrow> sample list
    \<Rightarrow> error + sample list" where
  "select' cfg schedule num_batches proposals eval_acquisition sampling_param_values obs_params =
     (case compute_exp_objs' (num_cpus cfg) schedule proposals eval_acquisition
             sampling_param_values of
        Inl e \<Rightarrow> Inl e
      | Inr exp_objs \<Rightarrow>
          (case sequence (map (\<lambda>idx. zero_identical cfg obs_params (proposals ! idx) (exp_objs ! idx))
                            [0..<length sampling_param_values]) of
             Inl e \<Rightarrow> Inl e
           | Inr exp_objs0 \<Rightarrow>
               (case for_each (select_one cfg obs_params proposals)
                       (concat (replicate num_batches [0..<length sampling_param_values]))
                       (exp_objs0, []) of
                  Inl e \<Rightarrow> Inl e
                | Inr st \<Rightarrow> Inr (snd st))))"

subsection \<open>The random generator\<close>

text \<open>
  The entropy source is a sequence of reals; a draw reads the fractional part of the
  next one, a value of \<open>[0, 1)\<close>, and moves on.
\<close>

type_synonym rng = "nat \<Rightarrow> real"

definition next_unit :: "rng \<Rightarrow> real" where
  "next_unit g = frac (g 0)"

definition advance :: "nat \<Rightarrow> rng \<Rightarrow> rng" where
  "advance k g = (\<lambda>n. g (n + k))"

definition units :: "nat \<Rightarrow> rng \<Rightarrow> real list" where
  "units k g = map (\<lambda>i. frac (g i)) [0..<k]"

text \<open>A uniform integer of \<open>{0, \<dots>, n - 1}\<close> from a value of \<open>[0, 1)\<close>.\<close>

definition below :: "nat \<Rightarrow> real \<Rightarrow> nat" where
  "below n u = nat \<lfloor>real n * u\<rfloor>"

text \<open>
  \<^verbatim>\<open>np.random.choice(n, size=k, replace=False)\<close>: \<open>k\<close> distinct indices below \<open>n\<close>; it raises
  for a negative size and for a size above the population.
\<close>

fun pick :: "nat \<Rightarrow> nat list \<Rightarrow> rng \<Rightarrow> nat list" where
  "pick 0 remaining g = []"
| "pick (Suc k) remaining g =
     (let j = below (length remaining) (next_unit g)
      in remaining ! j # pick k (take j remaining @ drop (Suc j) remaining) (advance 1 g))"

definition random_choice :: "nat \<Rightarrow> int \<Rightarrow> rng \<Rightarrow> error + (nat list \<times> rng)" where
  "random_choice n count g =
     (if int n < count
      then Inl (ValueError ''Cannot take a larger sample than population when replace=False'')
      else if count < 0 then Inl (ValueError ''negative dimensions are not allowed'')
      else Inr (pick (nat count) [0..<n] g, advance (nat count) g))"

subsection \<open>Duplicate repair: \<^verbatim>\<open>select\<close>\<close>

text \<open>\<^verbatim>\<open>np.unique(samples, axis=0)\<close>: the distinct rows in lexicographic order.\<close>

definition unique_rows :: "sample list \<Rightarrow> sample list" where
  "unique_rows samples = sort (remdups samples)"

text \<open>
  Lines 77-79 and 88-90: \<^verbatim>\<open>np.delete\<close> of every row of \<^verbatim>\<open>all_options\<close> equal to \<^verbatim>\<open>sample\<close>,
  for each sample in turn.
\<close>

definition delete_rows :: "sample list \<Rightarrow> sample list \<Rightarrow> sample list" where
  "delete_rows samples all_options =
     fold (\<lambda>sample opts. filter (\<lambda>row. row \<noteq> sample) opts) samples all_options"

text \<open>
  \<^verbatim>\<open>select\<close> (lines 41-105). The attribute \<^verbatim>\<open>self.all_options\<close> is the state: \<open>None\<close> is
  the default of the constructor, and \<^verbatim>\<open>len(None)\<close> raises \<^verbatim>\<open>TypeError\<close>. The result is the
  batch, the new option pool and the generator.
\<close>

definition select ::
  "config \<Rightarrow> sample list option \<Rightarrow> nat list \<Rightarrow> nat \<Rightarrow> sample list list \<Rightarrow> acquisition
    \<Rightarrow> 'p list \<Rightarrow> sample list \<Rightarrow> rng \<Rightarrow> error + (sample list \<times> sample list option \<times> rng)" where
  "select cfg all_options schedule num_batches proposals eval_acquisition sampling_param_values
       obs_params g =
     (case select' cfg schedule num_batches proposals eval_acquisition sampling_param_values
             obs_params of
        Inl e \<Rightarrow> Inl e
      | Inr samples \<Rightarrow>
          (case all_options of
             None \<Rightarrow> Inl (TypeError ''object of type NoneType has no len()'')
           | Some opts \<Rightarrow>
               (let degraded = length opts < length sampling_param_values;
                    unique_samples = (if degraded then samples else unique_rows samples);
                    is_batch_duplicate =
                      (if degraded then False
                       else length unique_samples \<noteq> length sampling_param_values);
                    opts1 = (if list_all (\<lambda>p. ptype p = ''categorical'') (parameters cfg)
                             then delete_rows unique_samples opts else opts)
                in if is_batch_duplicate then
                     (let missing_size =
                            int (length sampling_param_values) - int (length unique_samples)
                      in case random_choice (length opts1) missing_size g of
                           Inl e \<Rightarrow> Inl e
                         | Inr (indices, g') \<Rightarrow>
                             (let missing_samples = map (\<lambda>i. opts1 ! i) indices;
                                  opts2 = delete_rows missing_samples opts1
                              in Inr (unique_samples @ missing_samples, Some opts2, g')))
                   else Inr (unique_samples, Some opts1, g))))"

subsection \<open>Single precision\<close>

text \<open>
  \<^verbatim>\<open>astype(np.float32)\<close>: the nearest single-precision number, with 24 significant bits,
  ties to the even neighbour, and the fixed spacing \<open>2 ^ -149\<close> of the subnormal range
  below \<open>2 ^ -126\<close>. Magnitudes of \<open>2 ^ 128\<close> and more, which overflow to infinity,
  are outside the model, as is the rounding of double-precision arithmetic itself.
\<close>

definition round_half_even :: "real \<Rightarrow> int" where
  "round_half_even x =
     (let f = \<lfloor>x\<rfloor>; d = x - of_int f
      in if d < 1 / 2 then f else if 1 / 2 < d then f + 1 else if even f then f else f + 1)"

definition float32 :: "real \<Rightarrow> real" where
  "float32 x =
     (if x = 0 then 0
      else (let e = max \<lfloor>log 2 \<bar>x\<bar>\<rfloor> (- 126); ulp = 2 powi (e - 23)
            in of_int (round_half_even (x / ulp)) * ulp))"

subsection \<open>The sampler: \<^verbatim>\<open>RandomSampler\<close>\<close>

text \<open>
  The values a feasibility predicate may return. Python's \<^verbatim>\<open>x is True\<close> holds for the
  boolean \<^verbatim>\<open>True\<close> only; \<open>truthy\<close> is the conversion \<^verbatim>\<open>bool(x)\<close> that an \<^verbatim>\<open>if x:\<close> would
  apply instead.
\<close>

datatype pyval = PyBool bool | PyInt int | PyFloat real | PyStr string | PyNone

definition is_True :: "pyval \<Rightarrow> bool" where
  "is_True v = (v = PyBool True)"

fun truthy :: "pyval \<Rightarrow> bool" where
  "truthy (PyBool b) = b"
| "truthy (PyInt n) = (n \<noteq> 0)"
| "truthy (PyFloat x) = (x \<noteq> 0)"
| "truthy (PyStr s) = (s \<noteq> [])"
| "truthy PyNone = False"

text \<open>
  The exception class \<^verbatim>\<open>GryffinUnknownSettingsError\<close> comes from \<^verbatim>\<open>gryffin.utilities\<close>, which is
  not among the sources, and the sources call it without \<^verbatim>\<open>raise\<close>. What the call does is a
  parameter of every function that makes it: \<open>None\<close> when the call returns the new object,
  \<open>Some e\<close> when the constructor itself raises \<open>e\<close> (one that prints the message and exits
  raises \<^verbatim>\<open>SystemExit\<close>). The message strings are abbreviated.
\<close>

type_synonym error_class = "string \<Rightarrow> error option"

text \<open>
  The three generators (lines 170-180), for \<^verbatim>\<open>size=(num, 1)\<close>: \<open>num\<close> rows of one entry, each
  cast by \<^verbatim>\<open>astype(np.float32)\<close>. \<^verbatim>\<open>np.random.uniform(low, high)\<close> is
  \<open>low + (high - low) * u\<close> for \<open>u\<close> of \<open>[0, 1)\<close>; \<^verbatim>\<open>np.random.choice(0, \<dots>)\<close> and
  \<^verbatim>\<open>np.random.randint(0, h)\<close> with \<open>h \<le> 0\<close> raise.
\<close>

definition draw_continuous' :: "real \<Rightarrow> real \<Rightarrow> nat \<Rightarrow> rng \<Rightarrow> real list list \<times> rng" where
  "draw_continuous' lo hi num g =
     (map (\<lambda>u. [float32 (lo + (hi - lo) * u)]) (units num g), advance num g)"

definition draw_categorical' :: "nat \<Rightarrow> nat \<Rightarrow> rng \<Rightarrow> error + (real list list \<times> rng)" where
  "draw_categorical' num_options num g =
     (if num_options = 0 \<and> 0 < num
      then Inl (ValueError ''a must be greater than 0 unless no samples are taken'')
      else Inr (map (\<lambda>u. [float32 (real (below num_options u))]) (units num g), advance num g))"

definition draw_discrete' :: "real \<Rightarrow> real \<Rightarrow> nat \<Rightarrow> rng \<Rightarrow> error + (real list list \<times> rng)" where
  "draw_discrete' lo hi num g =
     (if hi - lo \<le> 0 then Inl (ValueError ''low >= high'')
      else Inr (map (\<lambda>u. [float32 (of_int \<lfloor>(hi - lo) * u\<rfloor>)]) (units num g), advance num g))"

text \<open>
  \<^verbatim>\<open>_draw_single_parameter\<close> (lines 82-91). In the last branch the error class is called; if
  that call returns, \<^verbatim>\<open>sampled_values\<close> was never assigned and the \<^verbatim>\<open>return\<close> raises
  \<^verbatim>\<open>UnboundLocalError\<close>.
\<close>

definition draw_single_parameter' ::
  "error_class \<Rightarrow> nat \<Rightarrow> string \<Rightarrow> parameter \<Rightarrow> rng \<Rightarrow> error + (real list list \<times> rng)" where
  "draw_single_parameter' GryffinUnknownSettingsError num param_type specs g =
     (if param_type = ''continuous'' then Inr (draw_continuous' (low specs) (high specs) num g)
      else if param_type = ''categorical''
        then draw_categorical' (length (options specs)) num g
      else if param_type = ''discrete'' then draw_discrete' (low specs) (high specs) num g
      else (case GryffinUnknownSettingsError
                   (''cannot understand parameter type '' @ param_type) of
              Some e \<Rightarrow> Inl e
            | None \<Rightarrow> Inl (UnboundLocalError ''sampled_values'')))"

text \<open>\<^verbatim>\<open>a[0][0]\<close> of a two-dimensional array.\<close>

definition first_entry :: "real list list \<Rightarrow> error + real" where
  "first_entry a =
     (case a of
        [] \<Rightarrow> Inl (IndexError ''index 0 is out of bounds'')
      | row # _ \<Rightarrow>
          (case row of [] \<Rightarrow> Inl (IndexError ''index 0 is out of bounds'') | v # _ \<Rightarrow> Inr v))"

text \<open>Lines 63-70: one candidate, a value for each parameter in turn.\<close>

fun draw_sample ::
  "error_class \<Rightarrow> parameter list \<Rightarrow> nat \<Rightarrow> rng \<Rightarrow> error + (sample \<times> rng)" where
  "draw_sample exc [] num g = Inr ([], g)"
| "draw_sample exc (param_settings # rest) num g =
     (case draw_single_parameter' exc num (ptype param_settings) param_settings g of
        Inl e \<Rightarrow> Inl e
      | Inr (drawn, g1) \<Rightarrow>
          (case first_entry drawn of
             Inl e \<Rightarrow> Inl e
           | Inr v \<Rightarrow>
               (case draw_sample exc rest num g1 of
                  Inl e \<Rightarrow> Inl e
                | Inr (vs, g2) \<Rightarrow> Inr (v # vs, g2))))"

text \<open>
  The \<^verbatim>\<open>while\<close> loop of \<^verbatim>\<open>_slow_draw\<close> (lines 62-77). \<open>to_dict\<close> stands for
  \<^verbatim>\<open>sample_arrays_to_dicts\<close> applied with the names, options and types of the configuration
  (a function of \<^verbatim>\<open>gryffin.utilities\<close>).
\<close>

partial_function (option) slow_draw_loop ::
  "error_class \<Rightarrow> config \<Rightarrow> ('d \<Rightarrow> pyval) \<Rightarrow> (sample \<Rightarrow> 'd) \<Rightarrow> nat \<Rightarrow> sample list \<Rightarrow> rng
    \<Rightarrow> (error + (sample list \<times> rng)) option" where
  "slow_draw_loop exc cfg known_constraints to_dict num samples g =
     (if length samples < num then
        (case draw_sample exc (parameters cfg) num g of
           Inl e \<Rightarrow> Some (Inl e)
         | Inr (sample, g') \<Rightarrow>
             (if is_True (known_constraints (to_dict sample))
              then slow_draw_loop exc cfg known_constraints to_dict num (samples @ [sample]) g'
              else slow_draw_loop exc cfg known_constraints to_dict num samples g'))
      else Some (Inr (samples, g)))"

definition slow_draw' ::
  "error_class \<Rightarrow> config \<Rightarrow> ('d \<Rightarrow> pyval) \<Rightarrow> (sample \<Rightarrow> 'd) \<Rightarrow> nat \<Rightarrow> rng
    \<Rightarrow> (error + (sample list \<times> rng)) option" where
  "slow_draw' exc cfg known_constraints to_dict num g =
     slow_draw_loop exc cfg known_constraints to_dict num [] g"

text \<open>
  \<^verbatim>\<open>np.concatenate(columns, axis=1)\<close> of arrays of shape \<open>(num, 1)\<close>; it raises on an empty
  list of arrays.
\<close>

definition concatenate_axis1 :: "real list list list \<Rightarrow> error + sample list" where
  "concatenate_axis1 columns =
     (case columns of
        [] \<Rightarrow> Inl (ValueError ''need at least one array to concatenate'')
      | c # _ \<Rightarrow> Inr (map (\<lambda>i. concat (map (\<lambda>col. col ! i) columns)) [0..<length c]))"

text \<open>\<^verbatim>\<open>_fast_draw\<close> (lines 47-56).\<close>

fun draw_columns ::
  "error_class \<Rightarrow> parameter list \<Rightarrow> nat \<Rightarrow> rng \<Rightarrow> error + (real list list list \<times> rng)" where
  "draw_columns exc [] num g = Inr ([], g)"
| "draw_columns exc (param_settings # rest) num g =
     (case draw_single_parameter' exc num (ptype param_settings) param_settings g of
        Inl e \<Rightarrow> Inl e
      | Inr (param_samples, g1) \<Rightarrow>
          (case draw_columns exc rest num g1 of
             Inl e \<Rightarrow> Inl e
           | Inr (cols, g2) \<Rightarrow> Inr (param_samples # cols, g2)))"

definition fast_draw' ::
  "error_class \<Rightarrow> config \<Rightarrow> nat \<Rightarrow> rng \<Rightarrow> error + (sample list \<times> rng)" where
  "fast_draw' exc cfg num g =
     (case draw_columns exc (parameters cfg) num g of
        Inl e \<Rightarrow> Inl e
      | Inr (cols, g') \<Rightarrow>
          (case concatenate_axis1 cols of Inl e \<Rightarrow> Inl e | Inr samples \<Rightarrow> Inr (samples, g')))"

text \<open>\<^verbatim>\<open>draw\<close> (lines 30-36): \<open>None\<close> is \<^verbatim>\<open>known_constraints is None\<close>.\<close>

definition draw ::
  "error_class \<Rightarrow> config \<Rightarrow> ('d \<Rightarrow> pyval) option \<Rightarrow> (sample \<Rightarrow> 'd) \<Rightarrow> nat \<Rightarrow> rng
    \<Rightarrow> (error + (sample list \<times> rng)) option" where
  "draw exc cfg known_constraints to_dict num g =
     (case known_constraints of
        None \<Rightarrow> Some (fast_draw' exc cfg num g)
      | Some constraint \<Rightarrow> slow_draw' exc cfg constraint to_dict num g)"

text \<open>
  \<^verbatim>\<open>_perturb_single_parameter\<close> (lines 134-150). \<^verbatim>\<open>sampled_values\<close> is the float32 array of
  line 176, and every array built from it is float32 again: the product of line 139 and
  the sum of line 141 are rounded, and the Python scalars that meet the array (the range,
  the reference value, the bounds) are converted to float32 first. The two \<^verbatim>\<open>np.where\<close> of lines 143-144
  are \<open>clip_low\<close> and \<open>clip_high\<close>. In the second branch, line 147 multiplies the reference
  value with a float32 array of ones.
\<close>

definition clip_low :: "real \<Rightarrow> real \<Rightarrow> real" where
  "clip_low lo v = (if v < lo then lo else v)"

definition clip_high :: "real \<Rightarrow> real \<Rightarrow> real" where
  "clip_high hi v = (if v > hi then hi else v)"

definition perturb_single_parameter' ::
  "error_class \<Rightarrow> real \<Rightarrow> nat \<Rightarrow> string \<Rightarrow> parameter \<Rightarrow> real \<Rightarrow> rng
    \<Rightarrow> error + (real list list \<times> rng)" where
  "perturb_single_parameter' GryffinUnknownSettingsError ref_value num param_type specs scale g =
     (if param_type = ''continuous'' then
        (let drawn = draw_continuous' (- scale) scale num g;
             sampled_values =
               map (map (\<lambda>v. float32 (v * float32 (high specs - low specs)))) (fst drawn);
             perturbed_sample = map (map (\<lambda>v. float32 (float32 ref_value + v))) sampled_values;
             perturbed_sample = map (map (clip_low (float32 (low specs)))) perturbed_sample;
             perturbed_sample = map (map (clip_high (float32 (high specs)))) perturbed_sample
         in Inr (perturbed_sample, snd drawn))
      else if param_type \<in> set [''categorical'', ''discrete'']
        then Inr (replicate num [float32 (float32 ref_value * float32 1)], g)
      else (case GryffinUnknownSettingsError ''did not understand settings'' of
              Some e \<Rightarrow> Inl e
            | None \<Rightarrow> Inl (UnboundLocalError ''perturbed_sample'')))"

text \<open>
  Lines 96-103 and 116-122: the loop over \<^verbatim>\<open>enumerate(self.config.parameters)\<close>;
  \<^verbatim>\<open>ref_sample[param_index]\<close> raises out of range.
\<close>

fun perturb_columns ::
  "error_class \<Rightarrow> parameter list \<Rightarrow> nat \<Rightarrow> sample \<Rightarrow> nat \<Rightarrow> real \<Rightarrow> rng
    \<Rightarrow> error + (real list list list \<times> rng)" where
  "perturb_columns exc [] param_index ref_sample num scale g = Inr ([], g)"
| "perturb_columns exc (param_settings # rest) param_index ref_sample num scale g =
     (if param_index < length ref_sample then
        (case perturb_single_parameter' exc (ref_sample ! param_index) num (ptype param_settings)
                param_settings scale g of
           Inl e \<Rightarrow> Inl e
         | Inr (perturbed_param_samples, g1) \<Rightarrow>
             (case perturb_columns exc rest (Suc param_index) ref_sample num scale g1 of
                Inl e \<Rightarrow> Inl e
              | Inr (cols, g2) \<Rightarrow> Inr (perturbed_param_samples # cols, g2)))
      else Inl (IndexError ''ref_sample''))"

definition fast_perturb' ::
  "error_class \<Rightarrow> config \<Rightarrow> sample \<Rightarrow> nat \<Rightarrow> real \<Rightarrow> rng \<Rightarrow> error + (sample list \<times> rng)" where
  "fast_perturb' exc cfg ref_sample num scale g =
     (case perturb_columns exc (parameters cfg) 0 ref_sample num scale g of
        Inl e \<Rightarrow> Inl e
      | Inr (cols, g') \<Rightarrow>
          (case concatenate_axis1 cols of Inl e \<Rightarrow> Inl e | Inr samples \<Rightarrow> Inr (samples, g')))"

fun perturb_sample ::
  "error_class \<Rightarrow> parameter list \<Rightarrow> nat \<Rightarrow> sample \<Rightarrow> real \<Rightarrow> rng \<Rightarrow> error + (sample \<times> rng)" where
  "perturb_sample exc [] param_index ref_sample scale g = Inr ([], g)"
| "perturb_sample exc (param_settings # rest) param_index ref_sample scale g =
     (if param_index < length ref_sample then
        (case perturb_single_parameter' exc (ref_sample ! param_index) 1 (ptype param_settings)
                param_settings scale g of
           Inl e \<Rightarrow> Inl e
         | Inr (perturbed, g1) \<Rightarrow>
             (case first_entry perturbed of
                Inl e \<Rightarrow> Inl e
              | Inr v \<Rightarrow>
                  (case perturb_sample exc rest (Suc param_index) ref_sample scale g1 of
                     Inl e \<Rightarrow> Inl e
                   | Inr (vs, g2) \<Rightarrow> Inr (v # vs, g2))))
      else Inl (IndexError ''ref_sample''))"

text \<open>The \<^verbatim>\<open>while\<close> loop of \<^verbatim>\<open>_slow_perturb\<close> (lines 112-129).\<close>

partial_function (option) slow_perturb_loop ::
  "error_class \<Rightarrow> config \<Rightarrow> ('d \<Rightarrow> pyval) \<Rightarrow> (sample \<Rightarrow> 'd) \<Rightarrow> sample \<Rightarrow> nat \<Rightarrow> real
    \<Rightarrow> sample list \<Rightarrow> rng \<Rightarrow> (error + (sample list \<times> rng)) option" where
  "slow_perturb_loop exc cfg known_constraints to_dict ref_sample num scale perturbed_samples g =
     (if length perturbed_samples < num then
        (case perturb_sample exc (parameters cfg) 0 ref_sample scale g of
           Inl e \<Rightarrow> Some (Inl e)
         | Inr (perturbed_sample, g') \<Rightarrow>
             (if is_True (known_constraints (to_dict perturbed_sample))
              then slow_perturb_loop exc cfg known_constraints to_dict ref_sample num scale
                     (perturbed_samples @ [perturbed_sample]) g'
              else slow_perturb_loop exc cfg known_constraints to_dict ref_sample num scale
                     perturbed_samples g'))
      else Some (Inr (perturbed_samples, g)))"

definition slow_perturb' ::
  "error_class \<Rightarrow> config \<Rightarrow> ('d \<Rightarrow> pyval) \<Rightarrow> (sample \<Rightarrow> 'd) \<Rightarrow> sample \<Rightarrow> nat \<Rightarrow> real \<Rightarrow> rng
    \<Rightarrow> (error + (sample list \<times> rng)) option" where
  "slow_perturb' exc cfg known_constraints to_dict ref_sample num scale g =
     slow_perturb_loop exc cfg known_constraints to_dict ref_sample num scale [] g"

text \<open>\<^verbatim>\<open>perturb\<close> (lines 38-45).\<close>

definition perturb ::
  "error_class \<Rightarrow> config \<Rightarrow> ('d \<Rightarrow> pyval) option \<Rightarrow> (sample \<Rightarrow> 'd) \<Rightarrow> sample \<Rightarrow> nat \<Rightarrow> real
    \<Rightarrow> rng \<Rightarrow> (error + (sample list \<times> rng)) option" where
  "perturb exc cfg known_constraints to_dict ref_sample num scale g =
     (case known_constraints of
        None \<Rightarrow> Some (fast_perturb' exc cfg ref_sample num scale g)
      | Some constraint \<Rightarrow> slow_perturb' exc cfg constraint to_dict ref_sample num scale g)"

text \<open>
  The candidates that the loops of \<^verbatim>\<open>_slow_draw\<close> and \<^verbatim>\<open>_slow_perturb\<close> generate in their
  first \<open>n\<close> passes, in order, whatever the predicate says of them: each pass draws from
  the generator where the pass before left it.
\<close>

fun draw_attempts ::
  "error_class \<Rightarrow> parameter list \<Rightarrow> nat \<Rightarrow> nat \<Rightarrow> rng \<Rightarrow> error + (sample list \<times> rng)" where
  "draw_attempts exc ps num 0 g = Inr ([], g)"
| "draw_attempts exc ps num (Suc n) g =
     (case draw_sample exc ps num g of
        Inl e \<Rightarrow> Inl e
      | Inr (sample, g1) \<Rightarrow>
          (case draw_attempts exc ps num n g1 of
             Inl e \<Rightarrow> Inl e
           | Inr (rest, g2) \<Rightarrow> Inr (sample # rest, g2)))"

fun perturb_attempts ::
  "error_class \<Rightarrow> parameter list \<Rightarrow> sample \<Rightarrow> real \<Rightarrow> nat \<Rightarrow> rng
    \<Rightarrow> error + (sample list \<times> rng)" where
  "perturb_attempts exc ps ref_sample scale 0 g = Inr ([], g)"
| "perturb_attempts exc ps ref_sample scale (Suc n) g =
     (case perturb_sample exc ps 0 ref_sample scale g of
        Inl e \<Rightarrow> Inl e
      | Inr (sample, g1) \<Rightarrow>
          (case perturb_attempts exc ps ref_sample scale n g1 of
             Inl e \<Rightarrow> Inl e
           | Inr (rest, g2) \<Rightarrow> Inr (sample # rest, g2)))"

text \<open>The candidates on which the predicate returned the boolean \<^verbatim>\<open>True\<close>.\<close>

definition exactly_True ::
  "('d \<Rightarrow> pyval) \<Rightarrow> (sample \<Rightarrow> 'd) \<Rightarrow> sample list \<Rightarrow> sample list" where
  "exactly_True known_constraints to_dict candidates =
     filter (\<lambda>sample. known_constraints (to_dict sample) = PyBool True) candidates"

subsection \<open>The optimizer: \<^verbatim>\<open>GradientOptimizer\<close>\<close>

text \<open>The position masks that \<^verbatim>\<open>__init__\<close> sets on the instance.\<close>

record GradientOptimizer =
  pos_continuous :: "bool list"
  pos_categories :: "bool list"
  pos_discrete :: "bool list"

text \<open>\<^verbatim>\<open>_within_bounds\<close> (lines 38-39).\<close>

definition within_bounds' :: "config \<Rightarrow> sample \<Rightarrow> bool" where
  "within_bounds' cfg sample =
     (\<not> (list_ex (\<lambda>(x, l). x < l) (zip sample (feature_lowers cfg))
         \<or> list_ex (\<lambda>(x, u). x > u) (zip sample (feature_uppers cfg))))"

text \<open>
  Attribute lookup \<^verbatim>\<open>self.<name>\<close> on an instance. The names are those that the sources
  bind: the methods of the class body, of which \<^verbatim>\<open>_within_bounds\<close> is the bounds predicate,
  the attributes that \<^verbatim>\<open>__init__\<close> assigns, and \<^verbatim>\<open>log\<close> and \<^verbatim>\<open>console\<close>, which the sources use
  of the base class \<^verbatim>\<open>Logger\<close>. Neither \<^verbatim>\<open>within_bounds\<close> (without the underscore) nor
  \<^verbatim>\<open>template\<close> is among them. A failed lookup raises \<^verbatim>\<open>AttributeError\<close>.
\<close>

datatype attribute = Method "config \<Rightarrow> sample \<Rightarrow> bool" | Data

definition getattr :: "string \<Rightarrow> attribute option" where
  "getattr name =
     (if name = ''_within_bounds'' then Some (Method within_bounds')
      else if name \<in> set [''config'', ''pos_continuous'', ''pos_categories'', ''pos_discrete'',
                           ''opt_con'', ''opt_dis'', ''opt_cat'', ''_optimize_continuous'',
                           ''_optimize_discrete'', ''_optimize_categorical'', ''set_func'',
                           ''optimize'', ''log'', ''console'']
        then Some Data
      else None)"

text \<open>
  The loop of \<^verbatim>\<open>__init__\<close> (lines 22-31) over \<^verbatim>\<open>enumerate(self.config.feature_types)\<close>. An
  assignment into a mask raises out of range. The last branch reads
  \<^verbatim>\<open>feature_names[feature_index]\<close>, then builds the message, which reads \<^verbatim>\<open>self.template\<close>,
  and only then calls the error class, without \<^verbatim>\<open>raise\<close>: if all of that returns, the loop
  goes on with the masks unchanged.
\<close>

fun parse_positions ::
  "error_class \<Rightarrow> config \<Rightarrow> (nat \<times> string) list \<Rightarrow> GradientOptimizer
    \<Rightarrow> error + GradientOptimizer" where
  "parse_positions exc cfg [] self = Inr self"
| "parse_positions exc cfg ((feature_index, feature_type) # rest) self =
     (if feature_type = ''continuous'' then
        (if feature_index < length (pos_continuous self)
         then parse_positions exc cfg rest
                (self\<lparr>pos_continuous := (pos_continuous self)[feature_index := True]\<rparr>)
         else Inl (IndexError ''pos_continuous''))
      else if feature_type = ''categorical'' then
        (if feature_index < length (pos_categories self)
         then parse_positions exc cfg rest
                (self\<lparr>pos_categories := (pos_categories self)[feature_index := True]\<rparr>)
         else Inl (IndexError ''pos_categories''))
      else if feature_type = ''discrete'' then
        (if feature_index < length (pos_discrete self)
         then parse_positions exc cfg rest
                (self\<lparr>pos_discrete := (pos_discrete self)[feature_index := True]\<rparr>)
         else Inl (IndexError ''pos_discrete''))
      else
        (if feature_index < length (feature_names cfg) then
           (let feature_name = feature_names cfg ! feature_index
            in case getattr ''template'' of
                 None \<Rightarrow> Inl (AttributeError ''template'')
               | Some template \<Rightarrow>
                   (case exc (''did not understand parameter type '' @ feature_type
                                @ '' for parameter '' @ feature_name) of
                      Some e \<Rightarrow> Inl e
                    | None \<Rightarrow> parse_positions exc cfg rest self))
         else Inl (IndexError ''feature_names'')))"

definition GradientOptimizer_init :: "error_class \<Rightarrow> config \<Rightarrow> error + GradientOptimizer" where
  "GradientOptimizer_init GryffinUnknownSettingsError cfg =
     parse_positions GryffinUnknownSettingsError cfg (enumerate 0 (feature_types cfg))
       \<lparr>pos_continuous = replicate (num_features cfg) False,
        pos_categories = replicate (num_features cfg) False,
        pos_discrete = replicate (num_features cfg) False\<rparr>"

text \<open>
  The three sub-optimizers (\<^verbatim>\<open>AdamOptimizer\<close>, \<^verbatim>\<open>NaiveCategoricalOptimizer\<close>,
  \<^verbatim>\<open>NaiveDiscreteOptimizer\<close>) are not among the sources: their \<^verbatim>\<open>get_update\<close>, after
  \<^verbatim>\<open>set_func\<close>, are parameters. \<open>'s\<close> is their internal state, which a call may change.
\<close>

record 's optimizers =
  con_update :: "sample \<Rightarrow> 's \<Rightarrow> sample \<times> 's"
  cat_update :: "sample \<Rightarrow> 's \<Rightarrow> sample \<times> 's"
  dis_update :: "sample \<Rightarrow> 's \<Rightarrow> sample \<times> 's"

text \<open>
  \<^verbatim>\<open>_optimize_continuous\<close> (lines 41-46): the update is computed first, then line 43 looks
  up \<^verbatim>\<open>self.within_bounds\<close> and calls it.
\<close>

definition optimize_continuous' ::
  "config \<Rightarrow> 's optimizers \<Rightarrow> sample \<Rightarrow> 's \<Rightarrow> error + (sample \<times> 's)" where
  "optimize_continuous' cfg opts sample st =
     (let (proposal, st') = con_update opts sample st
      in case getattr ''within_bounds'' of
           None \<Rightarrow> Inl (AttributeError ''within_bounds'')
         | Some Data \<Rightarrow> Inl (TypeError ''object is not callable'')
         | Some (Method bounds_ok) \<Rightarrow>
             (if bounds_ok cfg proposal then Inr (proposal, st') else Inr (sample, st')))"

definition optimize_categorical' :: "'s optimizers \<Rightarrow> sample \<Rightarrow> 's \<Rightarrow> sample \<times> 's" where
  "optimize_categorical' opts sample st = cat_update opts sample st"

definition optimize_discrete' :: "'s optimizers \<Rightarrow> sample \<Rightarrow> 's \<Rightarrow> sample \<times> 's" where
  "optimize_discrete' opts sample st = dis_update opts sample st"

text \<open>\<^verbatim>\<open>np.linalg.norm(a - b)\<close>.\<close>

definition norm_diff :: "sample \<Rightarrow> sample \<Rightarrow> real" where
  "norm_diff a b = sqrt (sum_list (map2 (\<lambda>x y. (x - y)\<^sup>2) a b))"

text \<open>
  The loop of \<^verbatim>\<open>optimize\<close> (lines 81-99), with \<open>k\<close> iterations left. The last component of
  the result counts the iterations that were started; it is not part of the Python value.
\<close>

fun optimize_loop ::
  "config \<Rightarrow> GradientOptimizer \<Rightarrow> 's optimizers \<Rightarrow> nat \<Rightarrow> sample \<Rightarrow> sample \<Rightarrow> 's \<Rightarrow> nat
    \<Rightarrow> error + (sample \<times> 's \<times> nat)" where
  "optimize_loop cfg self opts 0 sample_copy optimized st n = Inr (optimized, st, n)"
| "optimize_loop cfg self opts (Suc k) sample_copy optimized st n =
     (case (if True \<in> set (pos_continuous self)
            then optimize_continuous' cfg opts optimized st
            else Inr (optimized, st)) of
        Inl e \<Rightarrow> Inl e
      | Inr (optimized1, st1) \<Rightarrow>
          (let (optimized2, st2) =
                 (if True \<in> set (pos_categories self)
                  then optimize_categorical' opts optimized1 st1 else (optimized1, st1));
               (optimized3, st3) =
                 (if True \<in> set (pos_discrete self)
                  then optimize_discrete' opts optimized2 st2 else (optimized2, st2))
           in if True \<in> set (pos_continuous self) \<and> norm_diff sample_copy optimized3 < 1 / 10 ^ 7
              then Inr (optimized3, st3, Suc n)
              else optimize_loop cfg self opts k optimized3 optimized3 st3 (Suc n)))"

text \<open>Lines 73-76: the clamp of a sample that is not within the bounds.\<close>

definition clamp_sample :: "config \<Rightarrow> sample \<Rightarrow> sample" where
  "clamp_sample cfg sample =
     map2 (\<lambda>x u. if x > u then u else x)
       (map2 (\<lambda>x l. if x < l then l else x) sample (feature_lowers cfg))
       (feature_uppers cfg)"

text \<open>\<^verbatim>\<open>optimize\<close> (lines 71-101).\<close>

definition optimize ::
  "config \<Rightarrow> GradientOptimizer \<Rightarrow> 's optimizers \<Rightarrow> sample \<Rightarrow> nat \<Rightarrow> 's
    \<Rightarrow> error + (sample \<times> 's \<times> nat)" where
  "optimize cfg self opts sample max_iter st =
     (case getattr ''_within_bounds'' of
        None \<Rightarrow> Inl (AttributeError ''_within_bounds'')
      | Some Data \<Rightarrow> Inl (TypeError ''object is not callable'')
      | Some (Method bounds_ok) \<Rightarrow>
          (let sample0 = (if \<not> bounds_ok cfg sample then clamp_sample cfg sample else sample)
           in optimize_loop cfg self opts max_iter sample0 sample0 st 0))"

subsection \<open>The specification's formula for the diversity factor\<close>

text \<open>
  Section 4.3, step 3, word for word: the mean over the features of
  \<open>min(1, exp(2 (minDistance - characteristicDistance) / featureRange))\<close>, with \<open>minDistance\<close>
  the minimum over the observed and the already selected samples of the absolute distance
  in that feature, and \<open>characteristicDistance = featureRange / sqrt(numObservations)\<close>.
\<close>

definition spec_min_distance :: "sample list \<Rightarrow> sample list \<Rightarrow> sample \<Rightarrow> nat \<Rightarrow> real" where
  "spec_min_distance obs_params selected_samples proposal j =
     Min ((\<lambda>x. \<bar>proposal ! j - x ! j\<bar>) ` (set obs_params \<union> set selected_samples))"

definition spec_diversity_factor ::
  "config \<Rightarrow> sample list \<Rightarrow> sample list \<Rightarrow> sample \<Rightarrow> real" where
  "spec_diversity_factor cfg obs_params selected_samples proposal =
     mean (map (\<lambda>j. min 1 (exp (2 * (spec_min_distance obs_params selected_samples proposal j
                                       - feature_ranges cfg ! j / sqrt (real (length obs_params)))
                                  / feature_ranges cfg ! j)))
             [0..<length (feature_ranges cfg)])"

subsection \<open>Concrete inputs\<close>

text \<open>Two features on \<open>[0, 1]\<close>, the second of a type that is not one of the three.\<close>

definition cfg_ordinal :: config where
  "cfg_ordinal = \<lparr>parameters = [], param_lowers = [0, 0], param_uppers = [1, 1],
     feature_ranges = [1, 1], num_features = 2,
     feature_types = [''continuous'', ''ordinal''], feature_names = [''x0'', ''x1''],
     feature_lowers = [0, 0], feature_uppers = [1, 1], num_cpus = 1\<rparr>"

text \<open>A fully categorical space: one parameter with three options, encoded \<open>0, 1, 2\<close>.\<close>

definition cfg_cat3 :: config where
  "cfg_cat3 = \<lparr>parameters = [\<lparr>ptype = ''categorical'', low = 0, high = 0,
                                  options = [''a'', ''b'', ''c'']\<rparr>],
     param_lowers = [0], param_uppers = [2], feature_ranges = [2], num_features = 1,
     feature_types = [''categorical''], feature_names = [''dye''],
     feature_lowers = [0], feature_uppers = [2], num_cpus = 1\<rparr>"

text \<open>Two continuous features on \<open>[0, 4]\<close>.\<close>

definition cfg_two :: config where
  "cfg_two = \<lparr>parameters = [\<lparr>ptype = ''continuous'', low = 0, high = 4, options = []\<rparr>,
                              \<lparr>ptype = ''continuous'', low = 0, high = 4, options = []\<rparr>],
     param_lowers = [0, 0], param_uppers = [4, 4], feature_ranges = [4, 4], num_features = 2,
     feature_types = [''continuous'', ''continuous''], feature_names = [''x0'', ''x1''],
     feature_lowers = [0, 0], feature_uppers = [4, 4], num_cpus = 1\<rparr>"

text \<open>One continuous feature on \<open>[0, 1]\<close>, and the optimizer instance built for it.\<close>

definition cfg_unit :: config where
  "cfg_unit = \<lparr>parameters = [\<lparr>ptype = ''continuous'', low = 0, high = 1, options = []\<rparr>],
     param_lowers = [0], param_uppers = [1], feature_ranges = [1], num_features = 1,
     feature_types = [''continuous''], feature_names = [''x0''],
     feature_lowers = [0], feature_uppers = [1], num_cpus = 1\<rparr>"

definition self_unit :: GradientOptimizer where
  "self_unit = \<lparr>pos_continuous = [True], pos_categories = [False], pos_discrete = [False]\<rparr>"

text \<open>
  Sub-optimizers without state: the continuous one proposes \<open>x + step\<close>, the others leave
  the sample as it is.
\<close>

definition shift_optimizers :: "real \<Rightarrow> unit optimizers" where
  "shift_optimizers step =
     \<lparr>con_update = (\<lambda>sample st. (map (\<lambda>x. x + step) sample, st)),
      cat_update = (\<lambda>sample st. (sample, st)),
      dis_update = (\<lambda>sample st. (sample, st))\<rparr>"

text \<open>
  The parameters on which the generators of the sampler do not raise: a continuous
  parameter, a categorical one with at least one option, a discrete one with \<open>low < high\<close>.
\<close>

definition valid_parameter :: "parameter \<Rightarrow> bool" where
  "valid_parameter p =
     (ptype p = ''continuous''
      \<or> (ptype p = ''categorical'' \<and> options p \<noteq> [])
      \<or> (ptype p = ''discrete'' \<and> low p < high p))"


text \<open>A sample stands for its own named-field form.\<close>

definition id_dict :: "sample \<Rightarrow> sample" where
  "id_dict sample = sample"

text \<open>One categorical parameter with two options, encoded \<open>0\<close> and \<open>1\<close>.\<close>

definition cfg_cat2 :: config where
  "cfg_cat2 = \<lparr>parameters = [\<lparr>ptype = ''categorical'', low = 0, high = 0,
                                  options = [''a'', ''b'']\<rparr>],
     param_lowers = [0], param_uppers = [1], feature_ranges = [1], num_features = 1,
     feature_types = [''categorical''], feature_names = [''dye''],
     feature_lowers = [0], feature_uppers = [1], num_cpus = 1\<rparr>"

text \<open>
  A predicate on that space: option \<open>1\<close> is feasible (\<^verbatim>\<open>True\<close>); for option \<open>0\<close> it returns the
  integer \<open>1\<close>, which is truthy and is not \<^verbatim>\<open>True\<close>.
\<close>

definition only_option_one :: "sample \<Rightarrow> pyval" where
  "only_option_one s = (if s = [1] then PyBool True else PyInt 1)"

text \<open>An entropy source: \<open>1/4\<close> first, \<open>3/4\<close> ever after.\<close>

definition rng_low_then_high :: rng where
  "rng_low_then_high n = (if n = 0 then 1 / 4 else 3 / 4)"

text \<open>One continuous parameter on \<open>[0, 10]\<close>.\<close>

definition cfg_ten :: config where
  "cfg_ten = \<lparr>parameters = [\<lparr>ptype = ''continuous'', low = 0, high = 10, options = []\<rparr>],
     param_lowers = [0], param_uppers = [10], feature_ranges = [10], num_features = 1,
     feature_types = [''continuous''], feature_names = [''x0''],
     feature_lowers = [0], feature_uppers = [10], num_cpus = 1\<rparr>"


text \<open>An error class whose constructor prints its message and exits.\<close>

definition exits :: error_class where
  "exits message = Some (SystemExit message)"

text \<open>An error class whose constructor only builds the object.\<close>

definition builds :: error_class where
  "builds message = None"

text \<open>A predicate that answers a non-empty string instead of \<^verbatim>\<open>False\<close>.\<close>

definition above_five :: "sample \<Rightarrow> pyval" where
  "above_five s = (if 5 < s ! 0 then PyBool True else PyStr ''no'')"

section \<open>Theorems\<close>

subsection \<open>Parallel and sequential scoring\<close>

lemma concat_slices: "sum_list ss = length xs \<Longrightarrow> concat (slices ss xs) = xs"
proof (induction ss arbitrary: xs)
  case Nil
  then show ?case by simp
next
  case (Cons s ss)
  then have "sum_list ss = length (drop s xs)" by simp
  with Cons.IH have "concat (slices ss (drop s xs)) = drop s xs" by blast
  then show ?case by simp
qed

lemma length_slices: "length (slices ss xs) = length ss"
  by (induction ss arbitrary: xs) auto

lemma sum_list_section_sizes: "0 < k \<Longrightarrow> sum_list (section_sizes n k) = n"
proof -
  assume k: "0 < k"
  have "n mod k \<le> k" using k by (simp add: less_imp_le)
  then have "sum_list (section_sizes n k) = (n mod k) * (n div k + 1) + (k - n mod k) * (n div k)"
    by (simp add: section_sizes_def sum_list_replicate)
  also have "\<dots> = n mod k + k * (n div k)"
    using \<open>n mod k \<le> k\<close> by (simp add: algebra_simps diff_mult_distrib)
  also have "\<dots> = n" by simp
  finally show ?thesis .
qed

lemma length_section_sizes: "0 < k \<Longrightarrow> length (section_sizes n k) = k"
  by (simp add: section_sizes_def less_imp_le)

lemma concat_array_split: "0 < k \<Longrightarrow> concat (array_split xs k) = xs"
  by (simp add: array_split_def concat_slices sum_list_section_sizes)

lemma length_array_split: "0 < k \<Longrightarrow> length (array_split xs k) = k"
  by (simp add: array_split_def length_slices length_section_sizes)

lemma worker_eq:
  assumes "i < k" "idx < length proposals"
  shows "worker (array_split_axis1 proposals k) ev idx i d =
         d(i \<mapsto> map (\<lambda>s. exp (- ev s idx)) (array_split (proposals ! idx) k ! i))"
  using assms by (simp add: worker_def compute_exp_objs_def array_split_axis1_def Let_def)

lemma fold_worker:
  assumes "\<forall>i \<in> set sched. i < k" "idx < length proposals"
  shows "fold (worker (array_split_axis1 proposals k) ev idx) sched d =
         (\<lambda>i. if i \<in> set sched
               then Some (map (\<lambda>s. exp (- ev s idx)) (array_split (proposals ! idx) k ! i))
               else d i)"
  using assms
proof (induction sched arbitrary: d)
  case Nil
  then show ?case by simp
next
  case (Cons a sched)
  then show ?case by (auto simp: worker_eq fun_eq_iff)
qed

lemma collect_all:
  assumes "\<forall>i \<in> set idxs. d i = Some (g i)"
  shows "collect d idxs = Inr (concat (map g idxs))"
  using assms by (induction idxs) auto

lemma map_concat_split:
  assumes "0 < k"
  shows "concat (map (\<lambda>i. map f (array_split xs k ! i)) [0..<k]) = map f xs"
proof -
  have "map (\<lambda>i. map f (array_split xs k ! i)) [0..<k] = map (map f) (array_split xs k)"
    using assms by (simp add: list_eq_iff_nth_eq length_array_split)
  then show ?thesis by (simp add: map_concat[symmetric] concat_array_split assms)
qed

lemma sequence_Inr: "sequence (map (\<lambda>x. Inr (g x)) xs) = Inr (map g xs)"
  by (induction xs) auto

lemma batch_par:
  assumes "1 < k" "set sched = {0..<k}" "idx < length proposals"
  shows "batch_exp_objs k sched proposals ev idx = Inr (map (\<lambda>s. exp (- ev s idx)) (proposals ! idx))"
proof -
  have b: "\<forall>i \<in> set sched. i < k" using assms(2) by simp
  have len: "length (array_split_axis1 proposals k) = k" by (simp add: array_split_axis1_def)
  have k: "0 < k" using assms(1) by simp
  have "collect (fold (worker (array_split_axis1 proposals k) ev idx) sched Map.empty) [0..<k]
      = Inr (concat (map (\<lambda>i. map (\<lambda>s. exp (- ev s idx)) (array_split (proposals ! idx) k ! i)) [0..<k]))"
    by (rule collect_all) (simp add: fold_worker[OF b assms(3)] assms(2))
  then show ?thesis using assms(1)
    by (simp add: batch_exp_objs_def Let_def len map_concat_split[OF k])
qed

lemma batch_seq:
  assumes "k \<le> 1" "idx < length proposals"
  shows "batch_exp_objs k sched proposals ev idx = Inr (map (\<lambda>s. exp (- ev s idx)) (proposals ! idx))"
  using assms by (simp add: batch_exp_objs_def compute_exp_objs_def)

text \<open>
  Claim C4. With more than one CPU, whatever the order in which the workers deliver their
  chunks, \<^verbatim>\<open>_compute_exp_objs\<close> returns the same reward array as the sequential path, entry
  for entry: row \<open>idx\<close> holds \<open>exp (- acquisition)\<close> of the candidates of strategy \<open>idx\<close> in
  their original order.
\<close>

theorem parallel_equals_sequential:
  assumes "1 < cpus" and "set schedule = {0..<cpus}"
    and "length sampling_param_values \<le> length proposals"
  shows "compute_exp_objs' cpus schedule proposals eval_acquisition sampling_param_values
           = compute_exp_objs' 1 [] proposals eval_acquisition sampling_param_values
       \<and> compute_exp_objs' 1 [] proposals eval_acquisition sampling_param_values
           = Inr (map (\<lambda>idx. map (\<lambda>sample. exp (- eval_acquisition sample idx)) (proposals ! idx))
                    [0..<length sampling_param_values])"
proof -
  have p: "map (batch_exp_objs cpus schedule proposals eval_acquisition) [0..<length sampling_param_values]
      = map (\<lambda>idx. Inr (map (\<lambda>s. exp (- eval_acquisition s idx)) (proposals ! idx))) [0..<length sampling_param_values]"
    using assms by (simp add: batch_par)
  have q: "map (batch_exp_objs 1 [] proposals eval_acquisition) [0..<length sampling_param_values]
      = map (\<lambda>idx. Inr (map (\<lambda>s. exp (- eval_acquisition s idx)) (proposals ! idx))) [0..<length sampling_param_values]"
    using assms by (simp add: batch_seq)
  show ?thesis
    unfolding compute_exp_objs'_def p q by (simp add: sequence_Inr)
qed

theorem parallel_equals_sequential_witness:
  "compute_exp_objs' 2 [1, 0] [[[0], [1], [2]]] (\<lambda>s i. s ! 0) [()]
     = compute_exp_objs' 1 [] [[[0], [1], [2]]] (\<lambda>s i. s ! 0) [()]
   \<and> compute_exp_objs' 1 [] [[[0], [1], [2]]] (\<lambda>s i. s ! 0) [()]
     = Inr [[exp 0, exp (- 1), exp (- 2)]]"
proof -
  have s: "set [1, 0::nat] = {0..<2}" by auto
  show ?thesis
    using parallel_equals_sequential[of 2 "[1, 0]" "[()]" "[[[0], [1], [2]]]" "\<lambda>s i. s ! 0", OF _ s]
    by simp
qed

subsection \<open>The diversity factor\<close>

lemma Min_insert_min:
  assumes "finite S"
  shows "Min (insert (min a b) S) = Min (insert a (insert b S))"
proof (cases "S = {}")
  case True
  then show ?thesis by (simp add: min.commute)
next
  case False
  then show ?thesis using assms by (simp add: min.assoc)
qed

lemma fold_minimum:
  assumes "\<forall>r \<in> set rs. length r = d" and "length acc = d"
  shows "length (fold (\<lambda>row acc. minimum acc row) rs acc) = d
       \<and> (\<forall>j < d. fold (\<lambda>row acc. minimum acc row) rs acc ! j
                     = Min (insert (acc ! j) ((\<lambda>r. r ! j) ` set rs)))"
  using assms
proof (induction rs arbitrary: acc)
  case Nil
  then show ?case by simp
next
  case (Cons r rs)
  have len: "length (minimum acc r) = d" using Cons.prems by (simp add: minimum_def)
  have nth: "\<And>j. j < d \<Longrightarrow> minimum acc r ! j = min (acc ! j) (r ! j)"
    using Cons.prems by (simp add: minimum_def)
  have rs: "\<forall>r \<in> set rs. length r = d" using Cons.prems by simp
  from Cons.IH[OF rs len] show ?case
    by (simp add: nth Min_insert_min)
qed

lemma amin_axis0_nth:
  assumes "rows \<noteq> []" and "\<forall>r \<in> set rows. length r = d"
  shows "length (amin_axis0 rows) = d
       \<and> (\<forall>j < d. amin_axis0 rows ! j = Min ((\<lambda>r. r ! j) ` set rows))"
proof -
  obtain r rs where rows: "rows = r # rs" using assms(1) by (cases rows) auto
  have "\<forall>q \<in> set rs. length q = d" "length r = d" using assms(2) rows by auto
  from fold_minimum[OF this] show ?thesis by (simp add: rows)
qed

lemma amin_abs_diff:
  assumes "xs \<noteq> []" and "\<forall>x \<in> set xs. length x = d" and "length proposal = d"
  shows "length (amin_axis0 (map (abs_diff proposal) xs)) = d
       \<and> (\<forall>j < d. amin_axis0 (map (abs_diff proposal) xs) ! j
                     = Min ((\<lambda>x. \<bar>proposal ! j - x ! j\<bar>) ` set xs))"
proof -
  have ne: "map (abs_diff proposal) xs \<noteq> []" using assms(1) by simp
  have len: "\<forall>r \<in> set (map (abs_diff proposal) xs). length r = d"
    using assms(2,3) by (auto simp: abs_diff_def)
  have img: "(\<lambda>r. r ! j) ` set (map (abs_diff proposal) xs)
                 = (\<lambda>x. \<bar>proposal ! j - x ! j\<bar>) ` set xs" if "j < d" for j
  proof -
    have "(\<lambda>r. r ! j) ` set (map (abs_diff proposal) xs)
            = (\<lambda>x. abs_diff proposal x ! j) ` set xs"
      by (simp add: image_image)
    also have "\<dots> = (\<lambda>x. \<bar>proposal ! j - x ! j\<bar>) ` set xs"
      by (rule image_cong) (use assms(2,3) that in \<open>simp_all add: abs_diff_def\<close>)
    finally show ?thesis .
  qed
  have A: "length (amin_axis0 (map (abs_diff proposal) xs)) = d"
    and B: "\<forall>j < d. amin_axis0 (map (abs_diff proposal) xs) ! j
                     = Min ((\<lambda>r. r ! j) ` set (map (abs_diff proposal) xs))"
    using amin_axis0_nth[OF ne len] by blast+
  show ?thesis
  proof (intro conjI allI impI)
    show "length (amin_axis0 (map (abs_diff proposal) xs)) = d" by (rule A)
  next
    fix j assume j: "j < d"
    from B j have "amin_axis0 (map (abs_diff proposal) xs) ! j
                     = Min ((\<lambda>r. r ! j) ` set (map (abs_diff proposal) xs))" by blast
    then show "amin_axis0 (map (abs_diff proposal) xs) ! j
                 = Min ((\<lambda>x. \<bar>proposal ! j - x ! j\<bar>) ` set xs)"
      by (simp only: img[OF j])
  qed
qed

lemma min_distance_nth:
  assumes "obs_params \<noteq> []"
    and "\<forall>x \<in> set obs_params \<union> set selected_samples. length x = d"
    and "length proposal = d"
  defines "md \<equiv> (let obs_min_distance = amin_axis0 (map (abs_diff proposal) obs_params)
                  in if length selected_samples > 0
                     then minimum (amin_axis0 (map (abs_diff proposal) selected_samples))
                            obs_min_distance
                     else obs_min_distance)"
  shows "length md = d
       \<and> (\<forall>j < d. md ! j = spec_min_distance obs_params selected_samples proposal j)"
proof -
  have o: "\<forall>x \<in> set obs_params. length x = d" and s: "\<forall>x \<in> set selected_samples. length x = d"
    using assms(2) by auto
  note O = amin_abs_diff[OF assms(1) o assms(3)]
  show ?thesis
  proof (cases "selected_samples = []")
    case True
    then show ?thesis using O by (simp add: md_def spec_min_distance_def)
  next
    case False
    note S = amin_abs_diff[OF False s assms(3)]
    have un: "Min ((\<lambda>x. \<bar>proposal ! j - x ! j\<bar>) ` (set obs_params \<union> set selected_samples))
        = min (Min ((\<lambda>x. \<bar>proposal ! j - x ! j\<bar>) ` set selected_samples))
              (Min ((\<lambda>x. \<bar>proposal ! j - x ! j\<bar>) ` set obs_params))" for j
    proof -
      have "Min ((\<lambda>x. \<bar>proposal ! j - x ! j\<bar>) ` set obs_params
                 \<union> (\<lambda>x. \<bar>proposal ! j - x ! j\<bar>) ` set selected_samples)
          = min (Min ((\<lambda>x. \<bar>proposal ! j - x ! j\<bar>) ` set obs_params))
                (Min ((\<lambda>x. \<bar>proposal ! j - x ! j\<bar>) ` set selected_samples))"
        by (rule Min_Un) (use False assms(1) in simp_all)
      then show ?thesis by (simp only: image_Un min.commute)
    qed
    have mdS: "md = minimum (amin_axis0 (map (abs_diff proposal) selected_samples))
                      (amin_axis0 (map (abs_diff proposal) obs_params))"
      using False by (simp add: md_def)
    have len: "length md = d" using O S by (simp add: mdS minimum_def)
    have nth: "md ! j = spec_min_distance obs_params selected_samples proposal j" if "j < d" for j
    proof -
      have "md ! j = min (amin_axis0 (map (abs_diff proposal) selected_samples) ! j)
                         (amin_axis0 (map (abs_diff proposal) obs_params) ! j)"
        using O S that by (simp add: mdS minimum_def)
      also have "\<dots> = min (Min ((\<lambda>x. \<bar>proposal ! j - x ! j\<bar>) ` set selected_samples))
                            (Min ((\<lambda>x. \<bar>proposal ! j - x ! j\<bar>) ` set obs_params))"
        using O S that by simp
      finally show ?thesis by (simp only: spec_min_distance_def un)
    qed
    show ?thesis using len nth by blast
  qed
qed

lemma mean_exp_bounds: "0 \<le> mean (map exp xs)"
proof -
  have "0 \<le> sum_list (map exp xs)" by (rule sum_list_nonneg) auto
  then show ?thesis by (simp add: mean_def)
qed

text \<open>
  Claim C1, as amended. For a configuration with positive feature ranges, at least one
  observation, and samples of the length of the feature list, the diversity criterion of a
  proposal is \<open>min(1, m)\<close>, where \<open>m\<close> is the mean over the features of
  \<open>exp(2 (minDistance - characteristicDistance) / featureRange)\<close>; \<open>minDistance\<close> is the
  per-feature minimum absolute distance to the observed and the already selected samples,
  \<open>characteristicDistance\<close> is \<open>featureRange / sqrt(numObservations)\<close>. The criterion lies in
  \<open>[0, 1]\<close>. The minimum with \<open>1\<close> is taken once, after the mean, not per feature.
\<close>

theorem div_crit_min_of_mean:
  assumes "obs_params \<noteq> []"
    and "feature_ranges cfg \<noteq> []"
    and "\<forall>r \<in> set (feature_ranges cfg). 0 < r"
    and "\<forall>x \<in> set obs_params \<union> set selected_samples. length x = length (feature_ranges cfg)"
    and "length proposal = length (feature_ranges cfg)"
  shows "div_crit cfg obs_params selected_samples proposal
           = min 1 (mean (map (\<lambda>j. exp (2 * (spec_min_distance obs_params selected_samples proposal j
                                               - feature_ranges cfg ! j / sqrt (real (length obs_params)))
                                          / feature_ranges cfg ! j))
                            [0..<length (feature_ranges cfg)]))
       \<and> 0 \<le> div_crit cfg obs_params selected_samples proposal
       \<and> div_crit cfg obs_params selected_samples proposal \<le> 1"
proof -
  define d where "d = length (feature_ranges cfg)"
  define md where "md = (let obs_min_distance = amin_axis0 (map (abs_diff proposal) obs_params)
                  in if length selected_samples > 0
                     then minimum (amin_axis0 (map (abs_diff proposal) selected_samples))
                            obs_min_distance
                     else obs_min_distance)"
  have M: "length md = d"
     "\<And>j. j < d \<Longrightarrow> md ! j = spec_min_distance obs_params selected_samples proposal j"
    using min_distance_nth[OF assms(1), of selected_samples d proposal] assms(4,5)
    unfolding md_def d_def by auto
  have eq: "map exp (map2 (\<lambda>d r. 2 * d / r)
              (map2 (\<lambda>m c. m - c) md (char_dists cfg (length obs_params)))
              (feature_ranges cfg))
        = map (\<lambda>j. exp (2 * (spec_min_distance obs_params selected_samples proposal j
                               - feature_ranges cfg ! j / sqrt (real (length obs_params)))
                          / feature_ranges cfg ! j)) [0..<d]"
  proof (rule nth_equalityI)
    show "length (map exp (map2 (\<lambda>d r. 2 * d / r)
              (map2 (\<lambda>m c. m - c) md (char_dists cfg (length obs_params)))
              (feature_ranges cfg)))
        = length (map (\<lambda>j. exp (2 * (spec_min_distance obs_params selected_samples proposal j
                               - feature_ranges cfg ! j / sqrt (real (length obs_params)))
                          / feature_ranges cfg ! j)) [0..<d])"
      using M(1) by (simp add: char_dists_def d_def)
  next
    fix i
    assume "i < length (map exp (map2 (\<lambda>d r. 2 * d / r)
              (map2 (\<lambda>m c. m - c) md (char_dists cfg (length obs_params)))
              (feature_ranges cfg)))"
    then have i: "i < d" using M(1) by (simp add: char_dists_def d_def)
    have li: "i < length (feature_ranges cfg)" "i < length md" using i M(1) by (simp_all add: d_def)
    show "map exp (map2 (\<lambda>d r. 2 * d / r)
              (map2 (\<lambda>m c. m - c) md (char_dists cfg (length obs_params)))
              (feature_ranges cfg)) ! i
        = map (\<lambda>j. exp (2 * (spec_min_distance obs_params selected_samples proposal j
                               - feature_ranges cfg ! j / sqrt (real (length obs_params)))
                          / feature_ranges cfg ! j)) [0..<d] ! i"
      using li i by (simp add: char_dists_def M(2)[OF i])
  qed
  have dc: "div_crit cfg obs_params selected_samples proposal
      = min 1 (mean (map exp (map2 (\<lambda>d r. 2 * d / r)
              (map2 (\<lambda>m c. m - c) md (char_dists cfg (length obs_params)))
              (feature_ranges cfg))))"
    by (simp add: div_crit_def md_def Let_def)
  have nonneg: "0 \<le> div_crit cfg obs_params selected_samples proposal"
    unfolding dc by (rule min.boundedI) (simp, rule mean_exp_bounds)
  have le: "div_crit cfg obs_params selected_samples proposal \<le> 1"
    unfolding dc by (rule min.cobounded1)
  have "div_crit cfg obs_params selected_samples proposal
      = min 1 (mean (map (\<lambda>j. exp (2 * (spec_min_distance obs_params selected_samples proposal j
                               - feature_ranges cfg ! j / sqrt (real (length obs_params)))
                          / feature_ranges cfg ! j)) [0..<length (feature_ranges cfg)]))"
    unfolding dc eq d_def ..
  then show ?thesis using nonneg le by blast
qed

lemma div_crit_two:
  "div_crit cfg_two [[0, 0], [0, 1], [0, 2], [0, 4]] [] [4, 0] = min 1 ((exp 1 + exp (- 1)) / 2)"
  by (simp add: div_crit_def cfg_two_def abs_diff_def minimum_def char_dists_def mean_def)

lemma spec_two:
  "spec_diversity_factor cfg_two [[0, 0], [0, 1], [0, 2], [0, 4]] [] [4, 0]
     = (min 1 (exp 1) + min 1 (exp (- 1))) / 2"
  by (simp add: spec_diversity_factor_def spec_min_distance_def cfg_two_def mean_def
      numeral_2_eq_2)

text \<open>
  Claim C1, as stated, fails. Four observations with first coordinate \<open>0\<close>, no selected
  sample, the proposal \<open>(4, 0)\<close>: the two exponentials are \<open>exp 1\<close> and \<open>exp (- 1)\<close>. The code
  returns \<open>min(1, (exp 1 + exp (- 1)) / 2) = 1\<close>; the mean of the per-feature minima is
  \<open>(1 + exp (- 1)) / 2 < 1\<close>.
\<close>

theorem diversity_factor_counterexample:
  "div_crit cfg_two [[0, 0], [0, 1], [0, 2], [0, 4]] [] [4, 0]
     \<noteq> spec_diversity_factor cfg_two [[0, 0], [0, 1], [0, 2], [0, 4]] [] [4, 0]"
proof -
  have e1: "(2::real) \<le> exp 1" using exp_ge_add_one_self[of "1::real"] by simp
  have e2: "(0::real) < exp (- 1)" by simp
  have e3: "exp (- 1) < (1::real)" by simp
  have "(2::real) \<le> exp 1 + exp (- 1)" using e1 e2 by linarith
  then have code: "min 1 ((exp 1 + exp (- 1)) / 2) = (1::real)" by simp
  have spec: "(min 1 (exp 1) + min 1 (exp (- 1))) / 2 < (1::real)" using e1 e3 by simp
  show ?thesis unfolding div_crit_two spec_two code using spec by simp
qed

theorem div_crit_min_of_mean_witness:
  "div_crit cfg_two [[0, 0], [0, 4]] [[2, 2]] [1, 3]
     = min 1 (mean (map (\<lambda>j. exp (2 * (spec_min_distance [[0, 0], [0, 4]] [[2, 2]] [1, 3] j
                                         - feature_ranges cfg_two ! j / sqrt (real (length [[0, 0], [0, 4::real]])))
                                    / feature_ranges cfg_two ! j))
                      [0..<length (feature_ranges cfg_two)]))
   \<and> 0 \<le> div_crit cfg_two [[0, 0], [0, 4]] [[2, 2]] [1, 3]
   \<and> div_crit cfg_two [[0, 0], [0, 4]] [[2, 2]] [1, 3] \<le> 1"
  by (rule div_crit_min_of_mean) (simp_all add: cfg_two_def)

subsection \<open>Selection without an option pool\<close>

text \<open>
  Claim C9. With \<^verbatim>\<open>all_options = None\<close>, \<^verbatim>\<open>select\<close> never returns a batch: either
  \<^verbatim>\<open>_select\<close> raises, or the length of the option pool is taken and \<^verbatim>\<open>TypeError\<close> is
  raised. The types of the parameters play no role.
\<close>

theorem select_without_option_pool_fails:
  "(\<exists>e. select cfg None schedule num_batches proposals eval_acquisition sampling_param_values
           obs_params g = Inl e)
   \<and> select cfg None schedule num_batches proposals eval_acquisition sampling_param_values
        obs_params g
      = (case select' cfg schedule num_batches proposals eval_acquisition sampling_param_values
                obs_params of
           Inl e \<Rightarrow> Inl e
         | Inr samples \<Rightarrow> Inl (TypeError ''object of type NoneType has no len()''))"
  by (auto simp: select_def split: sum.splits)

subsection \<open>Unknown feature types\<close>

lemma getattr_template: "getattr ''template'' = None"
  by (simp add: getattr_def)

lemma parse_positions_unknown:
  assumes "\<exists>(i, t) \<in> set xs. t \<noteq> ''continuous'' \<and> t \<noteq> ''categorical'' \<and> t \<noteq> ''discrete''"
  shows "\<exists>e. parse_positions exc cfg xs self = Inl e"
  using assms
proof (induction xs arbitrary: self)
  case Nil
  then show ?case by simp
next
  case (Cons x xs)
  obtain i t where x: "x = (i, t)" by (cases x)
  show ?case
  proof (cases "t \<noteq> ''continuous'' \<and> t \<noteq> ''categorical'' \<and> t \<noteq> ''discrete''")
    case True
    then show ?thesis by (simp add: x getattr_template)
  next
    case False
    with Cons.prems x
    have rest: "\<exists>(i, t) \<in> set xs. t \<noteq> ''continuous'' \<and> t \<noteq> ''categorical'' \<and> t \<noteq> ''discrete''"
      by auto
    from False Cons.IH[OF rest] show ?thesis by (auto simp: x)
  qed
qed

text \<open>
  Whatever the error class does, the constructor returns no instance for a configuration
  with a feature type that is not one of the three, and the sampler's dispatch returns no
  values for such a type.
\<close>

lemma init_unknown_type_raises:
  assumes "\<exists>t \<in> set (feature_types cfg).
             t \<noteq> ''continuous'' \<and> t \<noteq> ''categorical'' \<and> t \<noteq> ''discrete''"
  shows "\<exists>e. GradientOptimizer_init exc cfg = Inl e"
proof -
  from assms obtain t where t: "t \<in> set (feature_types cfg)"
    "t \<noteq> ''continuous'' \<and> t \<noteq> ''categorical'' \<and> t \<noteq> ''discrete''" by blast
  then obtain i where "i < length (feature_types cfg)" "feature_types cfg ! i = t"
    by (auto simp: in_set_conv_nth)
  then have "(i, t) \<in> set (enumerate 0 (feature_types cfg))"
    by (auto simp: in_set_enumerate_eq)
  with t(2) have "\<exists>(i, t) \<in> set (enumerate 0 (feature_types cfg)).
      t \<noteq> ''continuous'' \<and> t \<noteq> ''categorical'' \<and> t \<noteq> ''discrete''" by blast
  from parse_positions_unknown[OF this] show ?thesis
    by (simp add: GradientOptimizer_init_def)
qed

lemma draw_dispatch_unknown_type:
  assumes "t \<noteq> ''continuous'' \<and> t \<noteq> ''categorical'' \<and> t \<noteq> ''discrete''"
  shows "draw_single_parameter' exc num t specs g
           = Inl (case exc (''cannot understand parameter type '' @ t) of
                    Some e \<Rightarrow> e | None \<Rightarrow> UnboundLocalError ''sampled_values'')"
  using assms by (simp add: draw_single_parameter'_def split: option.splits)

text \<open>
  With an error class that exits, the dispatch ends the program at the draw; with one that
  only builds the object, the \<^verbatim>\<open>return\<close> of the unassigned variable raises.
\<close>

lemma draw_dispatch_ordinal:
  "draw_single_parameter' exits 1 ''ordinal'' specs g
     = Inl (SystemExit ''cannot understand parameter type ordinal'')
   \<and> draw_single_parameter' builds 1 ''ordinal'' specs g
       = Inl (UnboundLocalError ''sampled_values'')"
  by (simp add: draw_single_parameter'_def exits_def builds_def)

text \<open>
  Claim C5 fails on the code. For the feature types \<open>continuous, ordinal\<close> the constructor
  raises \<^verbatim>\<open>AttributeError\<close> for the attribute \<^verbatim>\<open>template\<close>, which the message of line 31 reads:
  the error class is never called, and what reaches the caller is not a configuration
  error and does not name the feature or its type.
\<close>

theorem unknown_feature_type_attribute_error:
  "GradientOptimizer_init GryffinUnknownSettingsError cfg_ordinal
     = Inl (AttributeError ''template'')"
  by (simp add: GradientOptimizer_init_def cfg_ordinal_def getattr_template
      numeral_2_eq_2 enumerate_eq_zip)

subsection \<open>The refinement loop\<close>

lemma optimize_continuous_raises:
  "optimize_continuous' cfg opts sample st = Inl (AttributeError ''within_bounds'')"
  by (simp add: optimize_continuous'_def getattr_def split: prod.splits)

lemma optimize_raises:
  assumes "True \<in> set (pos_continuous self)" "0 < max_iter"
  shows "optimize cfg self opts sample max_iter st = Inl (AttributeError ''within_bounds'')"
proof -
  obtain k where k: "max_iter = Suc k" using assms(2) by (cases max_iter) auto
  show ?thesis using assms(1)
    by (simp add: optimize_def getattr_def k optimize_continuous_raises Let_def)
qed

lemma optimize_loop_full_budget:
  assumes "\<not> True \<in> set (pos_continuous self)"
  shows "\<exists>x st'. optimize_loop cfg self opts k sample_copy optimized st n = Inr (x, st', n + k)"
  using assms
proof (induction k arbitrary: sample_copy optimized st n)
  case 0
  then show ?case by simp
next
  case (Suc k)
  show ?case
    using Suc.prems Suc.IH[where n = "Suc n"]
    by (simp add: Let_def split: prod.splits)
qed

text \<open>The loop never runs more than the budget.\<close>

lemma optimize_loop_iterations:
  assumes "optimize_loop cfg self opts k sample_copy optimized st n = Inr (x, st', m)"
  shows "n \<le> m \<and> m \<le> n + k"
  using assms
proof (induction k arbitrary: sample_copy optimized st n)
  case 0
  then show ?case by simp
next
  case (Suc k)
  from Suc.prems show ?case
    by (auto simp: Let_def split: sum.splits prod.splits if_splits dest!: Suc.IH)
qed

lemma init_unit: "GradientOptimizer_init exc cfg_unit = Inr self_unit"
  by (simp add: GradientOptimizer_init_def cfg_unit_def self_unit_def enumerate_eq_zip)

text \<open>
  Claim C3 fails on the code. One continuous feature on \<open>[0, 1]\<close>, the sample \<open>0.5\<close>, ten
  iterations, a continuous update that proposes \<open>x + 2\<close>: the claim has the step rejected
  and \<open>0.5\<close> returned; the code raises \<^verbatim>\<open>AttributeError\<close> at line 43, where
  \<^verbatim>\<open>self.within_bounds\<close> is looked up and the method is named \<^verbatim>\<open>_within_bounds\<close>.
\<close>

theorem optimize_out_of_bounds_step_raises:
  "optimize cfg_unit self_unit (shift_optimizers 2) [1 / 2] 10 ()
     = Inl (AttributeError ''within_bounds'')"
  by (rule optimize_raises) (simp_all add: self_unit_def)

text \<open>
  Claim C6 fails on the code, by the same defect. With the continuous update at a fixed
  point (\<open>x + 0\<close>) the distance after the first iteration would be \<open>0\<close>, and the claim has
  the loop stop there and return; the code raises \<^verbatim>\<open>AttributeError\<close> in the first iteration,
  before the convergence test of line 96.
\<close>

theorem optimize_fixed_point_raises:
  "optimize cfg_unit self_unit (shift_optimizers 0) [1 / 2] 10 ()
     = Inl (AttributeError ''within_bounds'')"
  by (rule optimize_raises) (simp_all add: self_unit_def)

subsection \<open>Size of the selected batch\<close>

lemma select_one_length:
  assumes "select_one cfg obs proposals idx st = Inr st'"
  shows "length (snd st') = Suc (length (snd st))"
  using assms by (auto simp: select_one_def Let_def split: if_splits)

lemma for_each_select_length:
  assumes "for_each (select_one cfg obs proposals) idxs st = Inr st'"
  shows "length (snd st') = length (snd st) + length idxs"
  using assms
proof (induction idxs arbitrary: st)
  case Nil
  then show ?case by simp
next
  case (Cons i idxs)
  then obtain st1 where a: "select_one cfg obs proposals i st = Inr st1"
    and b: "for_each (select_one cfg obs proposals) idxs st1 = Inr st'"
    by (auto split: sum.splits)
  from Cons.IH[OF b] select_one_length[OF a] show ?case by simp
qed

lemma length_concat_replicate: "length (concat (replicate n xs)) = n * length xs"
  by (induction n) auto

lemma select'_length:
  assumes "select' cfg schedule num_batches proposals ev spv obs = Inr samples"
  shows "length samples = num_batches * length spv"
proof -
  from assms obtain st0 st where
    "for_each (select_one cfg obs proposals)
       (concat (replicate num_batches [0..<length spv])) st0 = Inr st"
    and s0: "snd st0 = []" and s: "samples = snd st"
    by (auto simp: select'_def split: sum.splits)
  from for_each_select_length[OF this(1)] s0 s show ?thesis
    by (simp add: length_concat_replicate)
qed

lemma delete_rows_filter:
  "delete_rows samples opts = filter (\<lambda>row. row \<notin> set samples) opts"
  unfolding delete_rows_def
proof (induction samples arbitrary: opts)
  case Nil
  then show ?case by simp
next
  case (Cons a samples)
  show ?case by (simp add: Cons.IH conj_commute)
qed

lemma below_less:
  assumes "0 < n"
  shows "below n (next_unit g) < n"
proof -
  have u: "0 \<le> frac (g 0)" "frac (g 0) < 1" by (simp_all add: frac_lt_1)
  have "real n * frac (g 0) < real n" using assms u by simp
  then have "\<lfloor>real n * frac (g 0)\<rfloor> < int n" by (simp add: floor_less_iff)
  moreover have "0 \<le> \<lfloor>real n * frac (g 0)\<rfloor>" using u by simp
  ultimately have "nat \<lfloor>real n * frac (g 0)\<rfloor> < n" by linarith
  then show ?thesis by (simp add: below_def next_unit_def)
qed

lemma pick_distinct:
  assumes "k \<le> length remaining" and "distinct remaining"
  shows "length (pick k remaining g) = k \<and> distinct (pick k remaining g)
       \<and> set (pick k remaining g) \<subseteq> set remaining"
  using assms
proof (induction k arbitrary: remaining g)
  case 0
  then show ?case by simp
next
  case (Suc k)
  define j where "j = below (length remaining) (next_unit g)"
  define rest where "rest = take j remaining @ drop (Suc j) remaining"
  have pos: "0 < length remaining" using Suc.prems(1) by linarith
  have j: "j < length remaining" unfolding j_def by (rule below_less[OF pos])
  have rem: "remaining = take j remaining @ remaining ! j # drop (Suc j) remaining"
    using j by (simp add: id_take_nth_drop)
  have d: "distinct (take j remaining @ remaining ! j # drop (Suc j) remaining)"
    using Suc.prems(2) rem by simp
  then have drest: "distinct rest" and notin: "remaining ! j \<notin> set rest"
    unfolding rest_def by auto
  have lrest: "k \<le> length rest" using Suc.prems(1) j unfolding rest_def by simp
  have sub: "set rest \<subseteq> set remaining"
    unfolding rest_def by (auto dest: in_set_takeD in_set_dropD)
  note IH = Suc.IH[OF lrest drest, of "advance 1 g"]
  have p: "pick (Suc k) remaining g = remaining ! j # pick k rest (advance 1 g)"
    by (simp add: j_def rest_def Let_def)
  show ?case unfolding p using IH notin sub j by auto
qed

lemma unique_rows_props:
  "distinct (unique_rows samples) \<and> set (unique_rows samples) = set samples
   \<and> length (unique_rows samples) \<le> length samples"
  by (simp add: unique_rows_def length_remdups_leq)

lemma length_filter_notin:
  assumes "distinct opts" and "distinct xs"
  shows "length opts - length xs \<le> length (filter (\<lambda>row. row \<notin> set xs) opts)"
proof -
  have "length (filter (\<lambda>row. row \<notin> set xs) opts) = card (set opts - set xs)"
  proof -
    have "distinct (filter (\<lambda>row. row \<notin> set xs) opts)" using assms(1) by simp
    then have "length (filter (\<lambda>row. row \<notin> set xs) opts)
                 = card (set (filter (\<lambda>row. row \<notin> set xs) opts))"
      by (rule distinct_card[symmetric])
    also have "set (filter (\<lambda>row. row \<notin> set xs) opts) = set opts - set xs" by auto
    finally show ?thesis .
  qed
  moreover have "card (set opts) - card (set xs) \<le> card (set opts - set xs)"
    by (rule diff_card_le_card_Diff) simp
  moreover have "card (set opts) = length opts" "card (set xs) = length xs"
    using assms by (simp_all add: distinct_card)
  ultimately show ?thesis by simp
qed

text \<open>
  With a single batch the repair does what it is meant to do: in a fully categorical space
  with a pool of distinct rows, whenever the greedy pass returns, \<^verbatim>\<open>select\<close> returns as many
  vectors as there are strategies, and they are pairwise distinct unless the pool held
  fewer rows than there are strategies.
\<close>

lemma select_single_batch:
  assumes cat: "list_all (\<lambda>p. ptype p = ''categorical'') (parameters cfg)"
    and pool: "distinct opts"
    and greedy: "select' cfg schedule 1 proposals ev spv obs = Inr samples"
  shows "\<exists>batch pool' g'.
           select cfg (Some opts) schedule 1 proposals ev spv obs g = Inr (batch, pool', g')
         \<and> length batch = 1 * length spv
         \<and> (length spv \<le> length opts \<longrightarrow> distinct batch)"
proof -
  have ls: "length samples = length spv" using select'_length[OF greedy] by simp
  note U = unique_rows_props[of samples]
  show ?thesis
  proof (cases "length opts < length spv")
    case True
    then show ?thesis using greedy ls by (simp add: select_def Let_def)
  next
    case False
    show ?thesis
    proof (cases "length (unique_rows samples) = length spv")
      case True
      then show ?thesis using greedy False U by (simp add: select_def Let_def)
    next
      case neq: False
      define u where "u = unique_rows samples"
      define opts1 where "opts1 = delete_rows u opts"
      define k where "k = length spv - length u"
      have lu: "length u < length spv" using neq U ls unfolding u_def by simp
      have o1: "opts1 = filter (\<lambda>row. row \<notin> set u) opts"
        unfolding opts1_def by (rule delete_rows_filter)
      have du: "distinct u" using U unfolding u_def by simp
      have d1: "distinct opts1" using pool unfolding o1 by simp
      have "length opts - length u \<le> length opts1"
        unfolding o1 by (rule length_filter_notin[OF pool du])
      then have kle: "k \<le> length opts1" using False unfolding k_def by simp
      have ms: "int (length spv) - int (length u) = int k" using lu unfolding k_def by simp
      define indices where "indices = pick k [0..<length opts1] g"
      have P: "length indices = k" "distinct indices" "set indices \<subseteq> {0..<length opts1}"
        using pick_distinct[of k "[0..<length opts1]" g] kle unfolding indices_def by auto
      define missing where "missing = map (\<lambda>i. opts1 ! i) indices"
      have dm: "distinct missing"
        unfolding missing_def distinct_map
      proof
        show "distinct indices" by (rule P(2))
        show "inj_on ((!) opts1) (set indices)"
        proof (rule inj_onI)
          fix x y assume "x \<in> set indices" "y \<in> set indices" "opts1 ! x = opts1 ! y"
          moreover from this P(3) have "x < length opts1" "y < length opts1" by auto
          ultimately show "x = y" using d1 by (simp add: nth_eq_iff_index_eq)
        qed
      qed
      have sm: "set missing \<subseteq> set opts1" unfolding missing_def using P(3) by auto
      have disj: "set u \<inter> set missing = {}" using sm unfolding o1 by auto
      have rc: "random_choice (length opts1) (int k) g = Inr (indices, advance k g)"
        using kle by (simp add: random_choice_def indices_def)
      have sel: "select cfg (Some opts) schedule 1 proposals ev spv obs g
                   = Inr (u @ missing, Some (delete_rows missing opts1), advance k g)"
        using greedy False neq cat
        by (simp add: select_def Let_def u_def[symmetric] opts1_def[symmetric] ms rc
            missing_def[symmetric])
      have "length (u @ missing) = length spv" using P(1) lu by (simp add: missing_def k_def)
      moreover have "distinct (u @ missing)" using du dm disj by simp
      ultimately show ?thesis using sel by simp
    qed
  qed
qed

lemma exp_objs_cat3:
  "compute_exp_objs' 1 [] [[[0], [1], [2]]] (\<lambda>s i. 0) [()] = Inr [[1, 1, 1]]"
  by (simp add: compute_exp_objs'_def batch_exp_objs_def compute_exp_objs_def)

lemma zero_cat3:
  "zero_identical cfg_cat3 [[0]] [[0], [1], [2]] [1, 1, 1] = Inr [0, 1, 1]"
  by (simp add: zero_identical_def cfg_cat3_def normalise_def sq_distances_def power2_eq_square)

lemma div_cat3_a: "div_crit cfg_cat3 [[0]] [] [p] = min 1 (exp ((2 * \<bar>p\<bar> - 4) / 2))"
  by (simp add: div_crit_def cfg_cat3_def abs_diff_def char_dists_def mean_def)

lemma div_cat3_b: "div_crit cfg_cat3 [[0]] [[2]] [p] = min 1 (exp ((2 * min \<bar>p - 2\<bar> \<bar>p\<bar> - 4) / 2))"
  by (simp add: div_crit_def cfg_cat3_def abs_diff_def char_dists_def mean_def minimum_def)

lemma step1_cat3:
  "select_one cfg_cat3 [[0]] [[[0], [1], [2]]] 0 ([[0, 1, 1]], []) = Inr ([[0, 1, 0]], [[2]])"
  by (simp add: select_one_def div_cat3_a Let_def)

lemma step2_cat3:
  "select_one cfg_cat3 [[0]] [[[0], [1], [2]]] 0 ([[0, 1, 0]], [[2]]) = Inr ([[0, 0, 0]], [[2], [1]])"
  by (simp add: select_one_def div_cat3_b Let_def)

lemma select'_cat3:
  "select' cfg_cat3 [] 2 [[[0], [1], [2]]] (\<lambda>s i. 0) [()] [[0]] = Inr [[2], [1]]"
proof -
  have n: "num_cpus cfg_cat3 = 1" by (simp add: cfg_cat3_def)
  have r: "concat (replicate 2 [0..<length [()]]) = [0, 0::nat]" by (simp add: numeral_2_eq_2)
  show ?thesis
    unfolding select'_def n exp_objs_cat3 r
    by (simp add: zero_cat3 step1_cat3 step2_cat3)
qed

text \<open>
  Claim C2 fails on the code. Three options, all in the pool, one strategy, two batches,
  one observation at option \<open>0\<close>: \<^verbatim>\<open>_select\<close> returns the two distinct samples \<open>2\<close> and \<open>1\<close>;
  line 69 compares the number of distinct samples with the number of strategies (one), not
  with \<^verbatim>\<open>num_batches\<close> times that number, the missing size is \<open>- 1\<close>, and
  \<^verbatim>\<open>np.random.choice\<close> raises.
\<close>

theorem select_two_batches_fails:
  "select cfg_cat3 (Some [[0], [1], [2]]) [] 2 [[[0], [1], [2]]] (\<lambda>s i. 0) [()] [[0]] (\<lambda>n. 0)
     = Inl (ValueError ''negative dimensions are not allowed'')"
  unfolding select_def select'_cat3
  by (simp add: unique_rows_def cfg_cat3_def delete_rows_def random_choice_def Let_def)

subsection \<open>Values of the single-precision rounding\<close>

lemma float32_zero: "float32 0 = 0"
  by (simp add: float32_def)

text \<open>Within one binade the spacing is fixed.\<close>

lemma float32_binade:
  assumes "x \<noteq> 0" and "2 powi k \<le> \<bar>x\<bar>" and "\<bar>x\<bar> < 2 powi (k + 1)" and "- 126 \<le> k"
  shows "float32 x = of_int (round_half_even (x / 2 powi (k - 23))) * 2 powi (k - 23)"
proof -
  have pos: "0 < \<bar>x\<bar>" using assms(1) by simp
  have p: "(2::real) powr (of_int j) = 2 powi j" for j
    by (simp add: powr_real_of_int' power_int_def)
  have "\<lfloor>log 2 \<bar>x\<bar>\<rfloor> = k"
    using assms(2,3) p[of k] p[of "k + 1"] by (simp add: floor_log_eq_powr_iff[OF pos])
  then show ?thesis using assms(1,4) by (simp add: float32_def Let_def max_def)
qed

lemma float32_one: "float32 1 = 1"
  using float32_binade[of 1 0] by (simp add: round_half_even_def)

lemma float32_five: "float32 5 = 5"
  using float32_binade[of 5 2] by (simp add: round_half_even_def)

lemma float32_ten: "float32 10 = 10"
  using float32_binade[of 10 3] by (simp add: round_half_even_def)



subsection \<open>Constrained draws\<close>

lemma first_entry_units:
  assumes "0 < num"
  shows "\<exists>v. first_entry (map (\<lambda>u. [f u]) (units num g)) = Inr v"
proof -
  obtain k where "num = Suc k" using assms by (cases num) auto
  then show ?thesis by (simp add: first_entry_def units_def upt_rec)
qed

lemma draw_single_valid:
  assumes "valid_parameter p" and "0 < num"
  shows "\<exists>drawn g1 v. draw_single_parameter' exc num (ptype p) p g = Inr (drawn, g1)
                       \<and> first_entry drawn = Inr v"
  using assms first_entry_units[OF assms(2)]
  by (auto simp: valid_parameter_def draw_single_parameter'_def draw_continuous'_def
      draw_categorical'_def draw_discrete'_def)

lemma draw_sample_valid:
  assumes "list_all valid_parameter ps" and "0 < num"
  shows "\<exists>s g'. draw_sample exc ps num g = Inr (s, g')"
  using assms(1)
proof (induction ps arbitrary: g)
  case Nil
  then show ?case by simp
next
  case (Cons p ps)
  then have vp: "valid_parameter p" and vps: "list_all valid_parameter ps" by simp_all
  obtain drawn g1 v where d: "draw_single_parameter' exc num (ptype p) p g = Inr (drawn, g1)"
    "first_entry drawn = Inr v"
    using draw_single_valid[OF vp assms(2)] by blast
  obtain s g2 where "draw_sample exc ps num g1 = Inr (s, g2)" using Cons.IH[OF vps] by blast
  with d show ?case by simp
qed

lemma slow_draw_loop_result:
  assumes run: "slow_draw_loop exc cfg kc to_dict num samples g = Some r"
    and feasible: "\<forall>s \<in> set samples. is_True (kc (to_dict s))"
    and len: "length samples \<le> num"
  shows "(\<forall>out g'. r = Inr (out, g') \<longrightarrow> length out = num
                  \<and> (\<forall>s \<in> set out. is_True (kc (to_dict s))))
       \<and> (list_all valid_parameter (parameters cfg) \<longrightarrow> (\<exists>out g'. r = Inr (out, g')))"
proof -
  have "(\<forall>s \<in> set samples. is_True (kc (to_dict s)))
          \<longrightarrow> length samples \<le> num
          \<longrightarrow> (\<forall>out g'. r = Inr (out, g') \<longrightarrow> length out = num
                  \<and> (\<forall>s \<in> set out. is_True (kc (to_dict s))))
              \<and> (list_all valid_parameter (parameters cfg) \<longrightarrow> (\<exists>out g'. r = Inr (out, g')))"
  proof (rule slow_draw_loop.raw_induct[where P = "\<lambda>exc cfg kc to_dict num samples g r.
          (\<forall>s \<in> set samples. is_True (kc (to_dict s)))
          \<longrightarrow> length samples \<le> num
          \<longrightarrow> (\<forall>out g'. r = Inr (out, g') \<longrightarrow> length out = num
                  \<and> (\<forall>s \<in> set out. is_True (kc (to_dict s))))
              \<and> (list_all valid_parameter (parameters cfg) \<longrightarrow> (\<exists>out g'. r = Inr (out, g')))",
          OF _ run], goal_cases)
    case (1 loop exc cfg kc to_dict num samples g r)
    show ?case
    proof (intro impI)
      assume f: "\<forall>s \<in> set samples. is_True (kc (to_dict s))"
        and l: "length samples \<le> num"
      show "(\<forall>out g'. r = Inr (out, g') \<longrightarrow> length out = num
                  \<and> (\<forall>s \<in> set out. is_True (kc (to_dict s))))
              \<and> (list_all valid_parameter (parameters cfg) \<longrightarrow> (\<exists>out g'. r = Inr (out, g')))"
      proof (cases "length samples < num")
        case False
        with 1(2) f l show ?thesis by auto
      next
        case True
        then have pos: "0 < num" by simp
        show ?thesis
        proof (cases "draw_sample exc (parameters cfg) num g")
          case (Inl e)
          with 1(2) True have "r = Inl e" by simp
          moreover have "\<not> list_all valid_parameter (parameters cfg)"
            using draw_sample_valid[OF _ pos, of "parameters cfg" exc g] Inl by auto
          ultimately show ?thesis by simp
        next
          case (Inr p)
          obtain s g' where p: "p = (s, g')" by (cases p)
          show ?thesis
          proof (cases "is_True (kc (to_dict s))")
            case acc: True
            from 1(2) True Inr p acc have "loop exc cfg kc to_dict num (samples @ [s]) g' = Some r"
              by simp
            from 1(1)[OF this] f acc True show ?thesis by simp
          next
            case rej: False
            from 1(2) True Inr p rej have "loop exc cfg kc to_dict num samples g' = Some r"
              by simp
            from 1(1)[OF this] f l show ?thesis by simp
          qed
        qed
      qed
    qed
  qed
  with feasible len show ?thesis by blast
qed

text \<open>
  Claim C7. Whenever the rejection loop of a constrained \<^verbatim>\<open>draw(num)\<close> terminates with a
  batch, the batch holds exactly \<open>num\<close> vectors and the predicate returned \<^verbatim>\<open>True\<close> on each of
  them; and on a configuration whose parameters are valid, a loop that terminates does so
  with a batch, never with an exception.
\<close>

theorem constrained_draw_count_and_feasible:
  assumes "draw exc cfg (Some known_constraints) to_dict num g = Some r"
  shows "(\<forall>samples g'. r = Inr (samples, g') \<longrightarrow> length samples = num
            \<and> (\<forall>s \<in> set samples. known_constraints (to_dict s) = PyBool True))
       \<and> (list_all valid_parameter (parameters cfg) \<longrightarrow> (\<exists>samples g'. r = Inr (samples, g')))"
proof -
  have "slow_draw_loop exc cfg known_constraints to_dict num [] g = Some r"
    using assms by (simp add: draw_def slow_draw'_def)
  from slow_draw_loop_result[OF this] show ?thesis by (simp add: is_True_def)
qed

lemma draw_sample_cat2:
  "draw_sample exc (parameters cfg_cat2) (Suc 0) g
     = Inr ([float32 (real (below 2 (frac (g 0))))], advance (Suc 0) g)"
  by (simp add: cfg_cat2_def draw_single_parameter'_def draw_categorical'_def units_def
      first_entry_def numeral_2_eq_2)

lemma below_quarter: "below 2 (1 / 4) = 0"
  by (simp add: below_def)

lemma below_three_quarters: "below 2 (3 / 4) = 1"
proof -
  have "\<lfloor>3 / 2 :: real\<rfloor> = 1" by (simp add: floor_eq_iff)
  then show ?thesis by (simp add: below_def)
qed

lemma draw_cat2_example:
  "draw exc cfg_cat2 (Some only_option_one) id_dict 1 rng_low_then_high
     = Some (Inr ([[1]], advance 2 rng_low_then_high))"
proof -
  have a1: "advance (Suc 0) rng_low_then_high 0 = 3 / 4"
    by (simp add: advance_def rng_low_then_high_def)
  have a2: "advance (Suc 0) (advance (Suc 0) rng_low_then_high) = advance 2 rng_low_then_high"
    by (simp add: advance_def fun_eq_iff)
  have s1: "slow_draw_loop exc cfg_cat2 only_option_one id_dict (Suc 0) [] rng_low_then_high
      = slow_draw_loop exc cfg_cat2 only_option_one id_dict (Suc 0) [] (advance (Suc 0) rng_low_then_high)"
    by (subst slow_draw_loop.simps)
      (simp add: draw_sample_cat2 rng_low_then_high_def below_quarter float32_zero is_True_def
        only_option_one_def id_dict_def)
  have s2: "slow_draw_loop exc cfg_cat2 only_option_one id_dict (Suc 0) [] (advance (Suc 0) rng_low_then_high)
      = slow_draw_loop exc cfg_cat2 only_option_one id_dict (Suc 0) [[1]] (advance 2 rng_low_then_high)"
    by (subst slow_draw_loop.simps)
      (simp add: draw_sample_cat2 a1 a2 below_three_quarters float32_one is_True_def
        only_option_one_def id_dict_def)
  have s3: "slow_draw_loop exc cfg_cat2 only_option_one id_dict (Suc 0) [[1]] (advance 2 rng_low_then_high)
      = Some (Inr ([[1]], advance 2 rng_low_then_high))"
    by (subst slow_draw_loop.simps) simp
  show ?thesis by (simp add: draw_def slow_draw'_def s1 s2 s3)
qed

theorem constrained_draw_count_and_feasible_witness:
  "draw exits cfg_cat2 (Some only_option_one) id_dict 1 rng_low_then_high
     = Some (Inr ([[1]], advance 2 rng_low_then_high))
   \<and> list_all valid_parameter (parameters cfg_cat2)
   \<and> length [[1::real]] = 1
   \<and> only_option_one (id_dict [1]) = PyBool True"
proof -
  have v: "list_all valid_parameter (parameters cfg_cat2)"
    by (simp add: cfg_cat2_def valid_parameter_def)
  show ?thesis
    using constrained_draw_count_and_feasible[OF draw_cat2_example] draw_cat2_example v
    by auto
qed

subsection \<open>Perturbation\<close>











subsection \<open>Acceptance of a candidate\<close>

lemma exactly_True_Cons:
  "exactly_True kc td (s # rest)
     = (if kc (td s) = PyBool True then s # exactly_True kc td rest else exactly_True kc td rest)"
  by (simp add: exactly_True_def)

lemma exactly_True_Nil: "exactly_True kc td [] = []"
  by (simp add: exactly_True_def)

text \<open>
  As long as fewer than \<open>num\<close> candidates have been accepted before each pass, \<open>n\<close> passes
  of the loop of \<^verbatim>\<open>_slow_draw\<close> leave it with the accepted ones among the \<open>n\<close> candidates
  appended.
\<close>

lemma slow_draw_loop_attempts:
  assumes "draw_attempts exc (parameters cfg) num n g = Inr (cands, g')"
    and "cands = [] \<or> length samples + length (exactly_True kc td (butlast cands)) < num"
  shows "slow_draw_loop exc cfg kc td num samples g
           = slow_draw_loop exc cfg kc td num (samples @ exactly_True kc td cands) g'"
  using assms
proof (induction n arbitrary: samples g cands)
  case 0
  then show ?case by (simp add: exactly_True_Nil)
next
  case (Suc n)
  from Suc.prems(1) obtain s g1 rest where
    d: "draw_sample exc (parameters cfg) num g = Inr (s, g1)"
    and r: "draw_attempts exc (parameters cfg) num n g1 = Inr (rest, g')"
    and c: "cands = s # rest"
    by (auto split: sum.splits prod.splits)
  from Suc.prems(2) c have short: "length samples < num" by auto
  define samples1 where
    "samples1 = (if kc (td s) = PyBool True then samples @ [s] else samples)"
  have step: "slow_draw_loop exc cfg kc td num samples g
                = slow_draw_loop exc cfg kc td num samples1 g1"
    by (subst slow_draw_loop.simps) (simp add: short d is_True_def samples1_def)
  have pre: "rest = [] \<or> length samples1 + length (exactly_True kc td (butlast rest)) < num"
  proof (cases "rest = []")
    case True
    then show ?thesis by simp
  next
    case False
    with Suc.prems(2) c show ?thesis
      by (auto simp: samples1_def exactly_True_Cons split: if_splits)
  qed
  have app: "samples1 @ exactly_True kc td rest = samples @ exactly_True kc td cands"
    by (simp add: samples1_def c exactly_True_Cons)
  from Suc.IH[OF r pre] step app show ?case by simp
qed

lemma slow_draw_loop_returns:
  assumes "draw_attempts exc (parameters cfg) num n g = Inr (cands, g')"
    and "length (exactly_True kc td cands) = num"
    and "cands = [] \<or> length (exactly_True kc td (butlast cands)) < num"
  shows "slow_draw_loop exc cfg kc td num [] g = Some (Inr (exactly_True kc td cands, g'))"
proof -
  have "slow_draw_loop exc cfg kc td num [] g
          = slow_draw_loop exc cfg kc td num ([] @ exactly_True kc td cands) g'"
    by (rule slow_draw_loop_attempts[OF assms(1)]) (use assms(3) in simp)
  also have "\<dots> = Some (Inr (exactly_True kc td cands, g'))"
    by (subst slow_draw_loop.simps) (simp add: assms(2))
  finally show ?thesis .
qed

text \<open>Every batch that the loop returns arises in this way.\<close>

lemma slow_draw_loop_batch:
  assumes run: "slow_draw_loop exc cfg kc td num samples g = Some r"
    and ret: "r = Inr (batch, g')"
  shows "\<exists>n cands. draw_attempts exc (parameters cfg) num n g = Inr (cands, g')
                   \<and> batch = samples @ exactly_True kc td cands"
proof -
  have "\<forall>batch g'. r = Inr (batch, g')
          \<longrightarrow> (\<exists>n cands. draw_attempts exc (parameters cfg) num n g = Inr (cands, g')
                   \<and> batch = samples @ exactly_True kc td cands)"
  proof (rule slow_draw_loop.raw_induct[where P = "\<lambda>exc cfg kc td num samples g r.
          \<forall>batch g'. r = Inr (batch, g')
          \<longrightarrow> (\<exists>n cands. draw_attempts exc (parameters cfg) num n g = Inr (cands, g')
                   \<and> batch = samples @ exactly_True kc td cands)", OF _ run], goal_cases)
    case (1 loop exc cfg kc td num samples g r)
    show ?case
    proof (intro allI impI)
      fix batch g'
      assume r: "r = Inr (batch, g')"
      show "\<exists>n cands. draw_attempts exc (parameters cfg) num n g = Inr (cands, g')
                   \<and> batch = samples @ exactly_True kc td cands"
      proof (cases "length samples < num")
        case False
        with 1(2) r have "batch = samples" "g' = g" by auto
        then have "draw_attempts exc (parameters cfg) num 0 g = Inr ([], g')
                     \<and> batch = samples @ exactly_True kc td []"
          by (simp add: exactly_True_Nil)
        then show ?thesis by blast
      next
        case True
        from 1(2) True r obtain s g1 where
          d: "draw_sample exc (parameters cfg) num g = Inr (s, g1)"
          by (auto split: sum.splits)
        define samples1 where
          "samples1 = (if kc (td s) = PyBool True then samples @ [s] else samples)"
        from 1(2) True d have "loop exc cfg kc td num samples1 g1 = Some r"
          by (simp add: is_True_def samples1_def split: if_splits)
        from 1(1)[OF this] r obtain n cands where
          a: "draw_attempts exc (parameters cfg) num n g1 = Inr (cands, g')"
          and b: "batch = samples1 @ exactly_True kc td cands" by blast
        have "draw_attempts exc (parameters cfg) num (Suc n) g = Inr (s # cands, g')"
          using d a by simp
        moreover have "batch = samples @ exactly_True kc td (s # cands)"
          using b by (simp add: samples1_def exactly_True_Cons)
        ultimately show ?thesis by blast
      qed
    qed
  qed
  with ret show ?thesis by blast
qed

text \<open>The same two facts for the loop of \<^verbatim>\<open>_slow_perturb\<close>.\<close>

lemma slow_perturb_loop_attempts:
  assumes "perturb_attempts exc (parameters cfg) ref_sample scale n g = Inr (cands, g')"
    and "cands = [] \<or> length samples + length (exactly_True kc td (butlast cands)) < num"
  shows "slow_perturb_loop exc cfg kc td ref_sample num scale samples g
           = slow_perturb_loop exc cfg kc td ref_sample num scale
               (samples @ exactly_True kc td cands) g'"
  using assms
proof (induction n arbitrary: samples g cands)
  case 0
  then show ?case by (simp add: exactly_True_Nil)
next
  case (Suc n)
  from Suc.prems(1) obtain s g1 rest where
    d: "perturb_sample exc (parameters cfg) 0 ref_sample scale g = Inr (s, g1)"
    and r: "perturb_attempts exc (parameters cfg) ref_sample scale n g1 = Inr (rest, g')"
    and c: "cands = s # rest"
    by (auto split: sum.splits prod.splits)
  from Suc.prems(2) c have short: "length samples < num" by auto
  define samples1 where
    "samples1 = (if kc (td s) = PyBool True then samples @ [s] else samples)"
  have step: "slow_perturb_loop exc cfg kc td ref_sample num scale samples g
                = slow_perturb_loop exc cfg kc td ref_sample num scale samples1 g1"
    by (subst slow_perturb_loop.simps) (simp add: short d is_True_def samples1_def)
  have pre: "rest = [] \<or> length samples1 + length (exactly_True kc td (butlast rest)) < num"
  proof (cases "rest = []")
    case True
    then show ?thesis by simp
  next
    case False
    with Suc.prems(2) c show ?thesis
      by (auto simp: samples1_def exactly_True_Cons split: if_splits)
  qed
  have app: "samples1 @ exactly_True kc td rest = samples @ exactly_True kc td cands"
    by (simp add: samples1_def c exactly_True_Cons)
  from Suc.IH[OF r pre] step app show ?case by simp
qed

lemma slow_perturb_loop_returns:
  assumes "perturb_attempts exc (parameters cfg) ref_sample scale n g = Inr (cands, g')"
    and "length (exactly_True kc td cands) = num"
    and "cands = [] \<or> length (exactly_True kc td (butlast cands)) < num"
  shows "slow_perturb_loop exc cfg kc td ref_sample num scale [] g
           = Some (Inr (exactly_True kc td cands, g'))"
proof -
  have "slow_perturb_loop exc cfg kc td ref_sample num scale [] g
          = slow_perturb_loop exc cfg kc td ref_sample num scale
              ([] @ exactly_True kc td cands) g'"
    by (rule slow_perturb_loop_attempts[OF assms(1)]) (use assms(3) in simp)
  also have "\<dots> = Some (Inr (exactly_True kc td cands, g'))"
    by (subst slow_perturb_loop.simps) (simp add: assms(2))
  finally show ?thesis .
qed

lemma slow_perturb_loop_batch:
  assumes run: "slow_perturb_loop exc cfg kc td ref_sample num scale samples g = Some r"
    and ret: "r = Inr (batch, g')"
  shows "\<exists>n cands. perturb_attempts exc (parameters cfg) ref_sample scale n g = Inr (cands, g')
                   \<and> batch = samples @ exactly_True kc td cands"
proof -
  have "\<forall>batch g'. r = Inr (batch, g')
          \<longrightarrow> (\<exists>n cands. perturb_attempts exc (parameters cfg) ref_sample scale n g
                            = Inr (cands, g')
                   \<and> batch = samples @ exactly_True kc td cands)"
  proof (rule slow_perturb_loop.raw_induct[where
        P = "\<lambda>exc cfg kc td ref_sample num scale samples g r.
          \<forall>batch g'. r = Inr (batch, g')
          \<longrightarrow> (\<exists>n cands. perturb_attempts exc (parameters cfg) ref_sample scale n g
                            = Inr (cands, g')
                   \<and> batch = samples @ exactly_True kc td cands)", OF _ run], goal_cases)
    case (1 loop exc cfg kc td ref_sample num scale samples g r)
    show ?case
    proof (intro allI impI)
      fix batch g'
      assume r: "r = Inr (batch, g')"
      show "\<exists>n cands. perturb_attempts exc (parameters cfg) ref_sample scale n g
                          = Inr (cands, g')
                   \<and> batch = samples @ exactly_True kc td cands"
      proof (cases "length samples < num")
        case False
        with 1(2) r have "batch = samples" "g' = g" by auto
        then have "perturb_attempts exc (parameters cfg) ref_sample scale 0 g = Inr ([], g')
                     \<and> batch = samples @ exactly_True kc td []"
          by (simp add: exactly_True_Nil)
        then show ?thesis by blast
      next
        case True
        from 1(2) True r obtain s g1 where
          d: "perturb_sample exc (parameters cfg) 0 ref_sample scale g = Inr (s, g1)"
          by (auto split: sum.splits)
        define samples1 where
          "samples1 = (if kc (td s) = PyBool True then samples @ [s] else samples)"
        from 1(2) True d
        have "loop exc cfg kc td ref_sample num scale samples1 g1 = Some r"
          by (simp add: is_True_def samples1_def split: if_splits)
        from 1(1)[OF this] r obtain n cands where
          a: "perturb_attempts exc (parameters cfg) ref_sample scale n g1 = Inr (cands, g')"
          and b: "batch = samples1 @ exactly_True kc td cands" by blast
        have "perturb_attempts exc (parameters cfg) ref_sample scale (Suc n) g
                = Inr (s # cands, g')"
          using d a by simp
        moreover have "batch = samples @ exactly_True kc td (s # cands)"
          using b by (simp add: samples1_def exactly_True_Cons)
        ultimately show ?thesis by blast
      qed
    qed
  qed
  with ret show ?thesis by blast
qed

text \<open>
  Claim C10. A constrained \<^verbatim>\<open>draw\<close> or \<^verbatim>\<open>perturb\<close> returns exactly the candidates on which the
  predicate returned the boolean \<^verbatim>\<open>True\<close>, in the order of their generation. Every batch
  that is returned is the list of those among the candidates of some number of passes;
  and when the last of \<open>n\<close> candidates is the one that completes \<open>num\<close> accepted ones, the
  call returns, and returns those. A candidate with any other value of the predicate,
  truthy or not, is not in the batch, and the next pass draws again.
\<close>

theorem accepted_iff_exactly_True:
  "(draw exc cfg (Some known_constraints) to_dict num g = Some (Inr (batch, g'))
      \<longrightarrow> (\<exists>n cands. draw_attempts exc (parameters cfg) num n g = Inr (cands, g')
                     \<and> batch = exactly_True known_constraints to_dict cands))
   \<and> (draw_attempts exc (parameters cfg) num n g = Inr (candidates, g')
        \<and> length (exactly_True known_constraints to_dict candidates) = num
        \<and> (candidates = []
             \<or> length (exactly_True known_constraints to_dict (butlast candidates)) < num)
      \<longrightarrow> draw exc cfg (Some known_constraints) to_dict num g
            = Some (Inr (exactly_True known_constraints to_dict candidates, g')))
   \<and> (perturb exc cfg (Some known_constraints) to_dict ref_sample num scale g
         = Some (Inr (batch, g'))
      \<longrightarrow> (\<exists>n cands. perturb_attempts exc (parameters cfg) ref_sample scale n g
                         = Inr (cands, g')
                     \<and> batch = exactly_True known_constraints to_dict cands))
   \<and> (perturb_attempts exc (parameters cfg) ref_sample scale n g = Inr (candidates, g')
        \<and> length (exactly_True known_constraints to_dict candidates) = num
        \<and> (candidates = []
             \<or> length (exactly_True known_constraints to_dict (butlast candidates)) < num)
      \<longrightarrow> perturb exc cfg (Some known_constraints) to_dict ref_sample num scale g
            = Some (Inr (exactly_True known_constraints to_dict candidates, g')))"
proof (intro conjI impI)
  assume "draw exc cfg (Some known_constraints) to_dict num g = Some (Inr (batch, g'))"
  then have "slow_draw_loop exc cfg known_constraints to_dict num [] g
               = Some (Inr (batch, g'))"
    by (simp add: draw_def slow_draw'_def)
  from slow_draw_loop_batch[OF this refl]
  show "\<exists>n cands. draw_attempts exc (parameters cfg) num n g = Inr (cands, g')
                     \<and> batch = exactly_True known_constraints to_dict cands"
    by simp
next
  assume "draw_attempts exc (parameters cfg) num n g = Inr (candidates, g')
        \<and> length (exactly_True known_constraints to_dict candidates) = num
        \<and> (candidates = []
             \<or> length (exactly_True known_constraints to_dict (butlast candidates)) < num)"
  then have a: "draw_attempts exc (parameters cfg) num n g = Inr (candidates, g')"
    and b: "length (exactly_True known_constraints to_dict candidates) = num"
    and c: "candidates = []
             \<or> length (exactly_True known_constraints to_dict (butlast candidates)) < num"
    by blast+
  from slow_draw_loop_returns[OF a b c]
  show "draw exc cfg (Some known_constraints) to_dict num g
            = Some (Inr (exactly_True known_constraints to_dict candidates, g'))"
    by (simp add: draw_def slow_draw'_def)
next
  assume "perturb exc cfg (Some known_constraints) to_dict ref_sample num scale g
         = Some (Inr (batch, g'))"
  then have "slow_perturb_loop exc cfg known_constraints to_dict ref_sample num scale [] g
               = Some (Inr (batch, g'))"
    by (simp add: perturb_def slow_perturb'_def)
  from slow_perturb_loop_batch[OF this refl]
  show "\<exists>n cands. perturb_attempts exc (parameters cfg) ref_sample scale n g
                         = Inr (cands, g')
                     \<and> batch = exactly_True known_constraints to_dict cands"
    by simp
next
  assume "perturb_attempts exc (parameters cfg) ref_sample scale n g = Inr (candidates, g')
        \<and> length (exactly_True known_constraints to_dict candidates) = num
        \<and> (candidates = []
             \<or> length (exactly_True known_constraints to_dict (butlast candidates)) < num)"
  then have a: "perturb_attempts exc (parameters cfg) ref_sample scale n g
                  = Inr (candidates, g')"
    and b: "length (exactly_True known_constraints to_dict candidates) = num"
    and c: "candidates = []
             \<or> length (exactly_True known_constraints to_dict (butlast candidates)) < num"
    by blast+
  from slow_perturb_loop_returns[OF a b c]
  show "perturb exc cfg (Some known_constraints) to_dict ref_sample num scale g
            = Some (Inr (exactly_True known_constraints to_dict candidates, g'))"
    by (simp add: perturb_def slow_perturb'_def)
qed

lemma float32_dyadics:
  "float32 (- (1 / 32)) = - (1 / 32)"
  "float32 (1 / 32) = 1 / 32"
  "float32 (- (5 / 16)) = - (5 / 16)"
  "float32 (5 / 16) = 5 / 16"
  "float32 (75 / 16) = 75 / 16"
  "float32 (85 / 16) = 85 / 16"
  using float32_binade[of "- (1 / 32)" "- 5"] float32_binade[of "1 / 32" "- 5"]
    float32_binade[of "- (5 / 16)" "- 2"] float32_binade[of "5 / 16" "- 2"]
    float32_binade[of "75 / 16" 2] float32_binade[of "85 / 16" 2]
  by (simp_all add: round_half_even_def)

lemma advance_twice:
  "advance (Suc 0) (advance (Suc 0) g) = advance 2 g"
  by (simp add: advance_def fun_eq_iff)

lemma rng_second: "advance (Suc 0) rng_low_then_high 0 = 3 / 4"
  by (simp add: advance_def rng_low_then_high_def)

lemma draw_attempts_cat2:
  "draw_attempts exc (parameters cfg_cat2) (Suc 0) (Suc (Suc 0)) rng_low_then_high
     = Inr ([[0], [1]], advance 2 rng_low_then_high)"
  by (simp add: draw_sample_cat2 rng_low_then_high_def rng_second
      below_quarter below_three_quarters float32_zero float32_one advance_twice)

lemma perturb_sample_ten_first:
  "perturb_sample exc (parameters cfg_ten) 0 [5] (1 / 16) rng_low_then_high
     = Inr ([75 / 16], advance (Suc 0) rng_low_then_high)"
  by (simp add: cfg_ten_def perturb_single_parameter'_def draw_continuous'_def units_def
      first_entry_def Let_def clip_low_def clip_high_def rng_low_then_high_def
      float32_zero float32_five float32_ten float32_dyadics)

lemma perturb_sample_ten_second:
  "perturb_sample exc (parameters cfg_ten) 0 [5] (1 / 16) (advance (Suc 0) rng_low_then_high)
     = Inr ([85 / 16], advance 2 rng_low_then_high)"
  by (simp add: cfg_ten_def perturb_single_parameter'_def draw_continuous'_def units_def
      first_entry_def Let_def clip_low_def clip_high_def rng_second advance_twice
      float32_zero float32_five float32_ten float32_dyadics)

lemma perturb_attempts_ten:
  "perturb_attempts exc (parameters cfg_ten) [5] (1 / 16) (Suc (Suc 0)) rng_low_then_high
     = Inr ([[75 / 16], [85 / 16]], advance 2 rng_low_then_high)"
  by (simp add: perturb_sample_ten_first perturb_sample_ten_second)

theorem accepted_iff_exactly_True_witness:
  "truthy (only_option_one (id_dict [0]))
   \<and> draw exits cfg_cat2 (Some only_option_one) id_dict 1 rng_low_then_high
       = Some (Inr ([[1]], advance 2 rng_low_then_high))
   \<and> (\<exists>n cands. draw_attempts exits (parameters cfg_cat2) 1 n rng_low_then_high
                       = Inr (cands, advance 2 rng_low_then_high)
                   \<and> [[1]] = exactly_True only_option_one id_dict cands)
   \<and> truthy (above_five (id_dict [75 / 16]))
   \<and> perturb exits cfg_ten (Some above_five) id_dict [5] 1 (1 / 16) rng_low_then_high
       = Some (Inr ([[85 / 16]], advance 2 rng_low_then_high))
   \<and> (\<exists>n cands. perturb_attempts exits (parameters cfg_ten) [5] (1 / 16) n rng_low_then_high
                       = Inr (cands, advance 2 rng_low_then_high)
                   \<and> [[85 / 16]] = exactly_True above_five id_dict cands)"
proof -
  note drawn = accepted_iff_exactly_True[where exc = exits and cfg = cfg_cat2
          and known_constraints = only_option_one and to_dict = id_dict and num = "Suc 0"
          and g = rng_low_then_high and n = "Suc (Suc 0)" and candidates = "[[0], [1]]"
          and g' = "advance 2 rng_low_then_high" and batch = "[[1]]"
          and ref_sample = "[5]" and scale = "1 / 16"]
  note perturbed = accepted_iff_exactly_True[where exc = exits and cfg = cfg_ten
          and known_constraints = above_five and to_dict = id_dict and num = "Suc 0"
          and g = rng_low_then_high and n = "Suc (Suc 0)"
          and candidates = "[[75 / 16], [85 / 16]]"
          and g' = "advance 2 rng_low_then_high" and batch = "[[85 / 16]]"
          and ref_sample = "[5]" and scale = "1 / 16"]
  have d: "draw exits cfg_cat2 (Some only_option_one) id_dict (Suc 0) rng_low_then_high
             = Some (Inr ([[1]], advance 2 rng_low_then_high))"
    using drawn
    by (simp add: draw_attempts_cat2 exactly_True_def only_option_one_def id_dict_def
        del: draw_attempts.simps perturb_attempts.simps)
  have p: "perturb exits cfg_ten (Some above_five) id_dict [5] (Suc 0) (1 / 16) rng_low_then_high
             = Some (Inr ([[85 / 16]], advance 2 rng_low_then_high))"
    using perturbed
    by (simp add: perturb_attempts_ten exactly_True_def above_five_def id_dict_def
        del: draw_attempts.simps perturb_attempts.simps)
  have d': "\<exists>n cands. draw_attempts exits (parameters cfg_cat2) (Suc 0) n rng_low_then_high
                       = Inr (cands, advance 2 rng_low_then_high)
                   \<and> [[1]] = exactly_True only_option_one id_dict cands"
    using drawn d by blast
  have p': "\<exists>n cands. perturb_attempts exits (parameters cfg_ten) [5] (1 / 16) n rng_low_then_high
                       = Inr (cands, advance 2 rng_low_then_high)
                   \<and> [[85 / 16]] = exactly_True above_five id_dict cands"
    using perturbed p by blast
  show ?thesis
    using d d' p p' by (simp add: only_option_one_def above_five_def id_dict_def)
qed

end
